theory Spec2Isabelle
  imports Main "HOL-Library.Multiset" "HOL-Library.Word"
begin

unbundle bit_operations_syntax

section \<open>JavaScript values and strings\<close>

text \<open>
  The transcoders are JavaScript functions over dynamically typed values. A value that
  can reach them (a block tree is built from object literals or read back with
  \<^verbatim>\<open>JSON.parse\<close>) is one of the following. An object is the list of its own
  properties in the order \<^verbatim>\<open>Object.entries\<close> lists them. A number is an integer
  from \<open>- 2\<^sup>5\<^sup>3\<close> to \<open>2\<^sup>5\<^sup>3 - 1\<close>, the signed value of a word of 54 bits: each
  of them is a double, and prints in decimal notation. A string is a \<^typ>\<open>string\<close>, a list
  of 8-bit characters, read as the UTF-16 code units below 256 (ISO 8859-1); case
  mapping and trimming are those of JavaScript on these code units.
\<close>

datatype jsval =
    JUndefined
  | JNull
  | JBool bool
  | JNum "54 word"
  | JStr string
  | JArr "jsval list"
  | JObj "(string \<times> jsval) list"

text \<open>The exceptions that the core can throw.\<close>

datatype error = TypeError | RangeError

fun js_truthy :: "jsval \<Rightarrow> bool" where
  "js_truthy JUndefined = False"
| "js_truthy JNull = False"
| "js_truthy (JBool b) = b"
| "js_truthy (JNum n) = (n \<noteq> 0)"
| "js_truthy (JStr s) = (s \<noteq> [])"
| "js_truthy (JArr xs) = True"
| "js_truthy (JObj kvs) = True"

text \<open>
  Property read \<^verbatim>\<open>v.k\<close> on a value that is neither \<^verbatim>\<open>null\<close> nor
  \<^verbatim>\<open>undefined\<close>, for the property names the transcoders read this way (none of
  them is an index or a member of a prototype, and \<^verbatim>\<open>length\<close> is read this way on
  an object only): only an object has them.
\<close>

fun js_prop :: "jsval \<Rightarrow> string \<Rightarrow> jsval" where
  "js_prop (JObj kvs) k = (case map_of kvs k of Some v \<Rightarrow> v | None \<Rightarrow> JUndefined)"
| "js_prop v k = JUndefined"

text \<open>A destructuring default \<^verbatim>\<open>{ k = d }\<close> applies to \<^verbatim>\<open>undefined\<close> only.\<close>

definition js_default :: "jsval \<Rightarrow> jsval \<Rightarrow> jsval" where
  "js_default v d = (if v = JUndefined then d else v)"

definition join :: "string \<Rightarrow> string list \<Rightarrow> string" where
  "join sep xs = (case xs of [] \<Rightarrow> [] | y # ys \<Rightarrow> y @ concat (map (\<lambda>z. sep @ z) ys))"

fun split :: "char \<Rightarrow> string \<Rightarrow> string list" where
  "split c [] = [[]]"
| "split c (x # xs) =
     (if x = c then [] # split c xs
      else (case split c xs of w # ws \<Rightarrow> (x # w) # ws | [] \<Rightarrow> [[x]]))"

text \<open>
  \<^verbatim>\<open>s.repeat(n)\<close> for an integer \<open>n\<close>: a \<^verbatim>\<open>RangeError\<close> when \<open>n\<close> is negative,
  and otherwise the text \<open>repeat s n\<close>.
\<close>

definition repeat :: "string \<Rightarrow> int \<Rightarrow> string" where
  "repeat s n = concat (replicate (nat n) s)"

definition js_repeat :: "string \<Rightarrow> int \<Rightarrow> error + string" where
  "js_repeat s n = (if n < 0 then Inl RangeError else Inr (repeat s n))"

definition digit_char :: "nat \<Rightarrow> char" where
  "digit_char d = ''0123456789abcdef'' ! d"

fun show_nat :: "nat \<Rightarrow> string" where
  "show_nat n = (if n < 10 then [digit_char n] else show_nat (n div 10) @ [digit_char (n mod 10)])"

definition show_int :: "int \<Rightarrow> string" where
  "show_int i = (if i < 0 then ''-'' @ show_nat (nat (- i)) else show_nat (nat i))"

text \<open>Collecting the results of \<^verbatim>\<open>xs.map(f)\<close>: the first exception propagates.\<close>

fun sequenceE :: "(error + 'a) list \<Rightarrow> error + 'a list" where
  "sequenceE [] = Inr []"
| "sequenceE (x # xs) =
     (case x of Inl e \<Rightarrow> Inl e
      | Inr y \<Rightarrow> (case sequenceE xs of Inl e \<Rightarrow> Inl e | Inr ys \<Rightarrow> Inr (y # ys)))"

text \<open>
  \<^verbatim>\<open>String(v)\<close>, also the conversion that a template literal applies. An object
  is converted by its method \<^verbatim>\<open>toString\<close>: the inherited one gives
  \<^verbatim>\<open>[object Object]\<close>; an own property of that name, which for a value read from
  JSON is not a function, leaves \<^verbatim>\<open>valueOf\<close>, which does not give a primitive
  either, and the conversion throws a \<^verbatim>\<open>TypeError\<close>. An array is converted by
  \<^verbatim>\<open>join\<close>, which converts its elements.
\<close>

fun js_String :: "jsval \<Rightarrow> error + string" where
  "js_String JUndefined = Inr ''undefined''"
| "js_String JNull = Inr ''null''"
| "js_String (JBool b) = Inr (if b then ''true'' else ''false'')"
| "js_String (JNum n) = Inr (show_int (sint n))"
| "js_String (JStr s) = Inr s"
| "js_String (JArr xs) =
     (case sequenceE (map (\<lambda>x. if x = JUndefined \<or> x = JNull then Inr [] else js_String x) xs) of
        Inl e \<Rightarrow> Inl e
      | Inr ss \<Rightarrow> Inr (join '','' ss))"
| "js_String (JObj kvs) =
     (if ''toString'' \<in> set (map fst kvs) then Inl TypeError else Inr ''[object Object]'')"

text \<open>
  The conversion of a value to a primitive that precedes its conversion to a number: for
  an object and for an array it ends in the same call of \<^verbatim>\<open>toString\<close>.
\<close>

definition js_ToPrimitive :: "jsval \<Rightarrow> error + jsval" where
  "js_ToPrimitive v =
     (case v of
        JArr xs \<Rightarrow> (case js_String v of Inl e \<Rightarrow> Inl e | Inr s \<Rightarrow> Inr (JStr s))
      | JObj kvs \<Rightarrow> (case js_String v of Inl e \<Rightarrow> Inl e | Inr s \<Rightarrow> Inr (JStr s))
      | _ \<Rightarrow> Inr v)"

definition upper_letters :: string where
  "upper_letters = ''ABCDEFGHIJKLMNOPQRSTUVWXYZ''"

definition lower_letters :: string where
  "lower_letters = ''abcdefghijklmnopqrstuvwxyz''"

definition digit_chars :: string where
  "digit_chars = ''0123456789''"

text \<open>
  The letters of the upper half of the range, capital and small, in the same order. The
  small letter \<open>0xDF\<close> has the capital form \<^verbatim>\<open>SS\<close>; the capital forms of \<open>0xB5\<close>
  and of \<open>0xFF\<close> lie outside the range, and \<open>toUpperCase\<close> (which the transcoder
  applies to the first character of a tag name, an ASCII letter in every parsed document)
  keeps them.
\<close>

definition latin_upper :: string where
  "latin_upper =
     [CHR 0xC0, CHR 0xC1, CHR 0xC2, CHR 0xC3, CHR 0xC4, CHR 0xC5, CHR 0xC6, CHR 0xC7, CHR 0xC8,
      CHR 0xC9, CHR 0xCA, CHR 0xCB, CHR 0xCC, CHR 0xCD, CHR 0xCE, CHR 0xCF, CHR 0xD0, CHR 0xD1,
      CHR 0xD2, CHR 0xD3, CHR 0xD4, CHR 0xD5, CHR 0xD6, CHR 0xD8, CHR 0xD9, CHR 0xDA, CHR 0xDB,
      CHR 0xDC, CHR 0xDD, CHR 0xDE]"

definition latin_lower :: string where
  "latin_lower =
     [CHR 0xE0, CHR 0xE1, CHR 0xE2, CHR 0xE3, CHR 0xE4, CHR 0xE5, CHR 0xE6, CHR 0xE7, CHR 0xE8,
      CHR 0xE9, CHR 0xEA, CHR 0xEB, CHR 0xEC, CHR 0xED, CHR 0xEE, CHR 0xEF, CHR 0xF0, CHR 0xF1,
      CHR 0xF2, CHR 0xF3, CHR 0xF4, CHR 0xF5, CHR 0xF6, CHR 0xF8, CHR 0xF9, CHR 0xFA, CHR 0xFB,
      CHR 0xFC, CHR 0xFD, CHR 0xFE]"

definition lower_char :: "char \<Rightarrow> char" where
  "lower_char c =
     (case map_of (zip (upper_letters @ latin_upper) (lower_letters @ latin_lower)) c of
        Some d \<Rightarrow> d | None \<Rightarrow> c)"

definition upper_char :: "char \<Rightarrow> string" where
  "upper_char c =
     (case map_of (zip (lower_letters @ latin_lower) (upper_letters @ latin_upper)) c of
        Some d \<Rightarrow> [d] | None \<Rightarrow> if c = CHR 0xDF then ''SS'' else [c])"

definition toLowerCase :: "string \<Rightarrow> string" where
  "toLowerCase s = map lower_char s"

definition toUpperCase :: "string \<Rightarrow> string" where
  "toUpperCase s = concat (map upper_char s)"

text \<open>The regular-expression class \<^verbatim>\<open>\w\<close>, that is \<^verbatim>\<open>[A-Za-z0-9_]\<close>.\<close>

definition is_word_char :: "char \<Rightarrow> bool" where
  "is_word_char c = (c \<in> set (upper_letters @ lower_letters @ digit_chars @ ''_''))"

text \<open>
  The white space and the line terminators that \<^verbatim>\<open>String.prototype.trim\<close> strips,
  among the code units below 256: tab, line feed, vertical tab, form feed, carriage
  return, space and the no-break space.
\<close>

definition is_space :: "char \<Rightarrow> bool" where
  "is_space c =
     (c \<in> set [CHR 0x09, CHR 0x0A, CHR 0x0B, CHR 0x0C, CHR 0x0D, CHR '' '', CHR 0xA0])"

definition trim :: "string \<Rightarrow> string" where
  "trim s = rev (dropWhile is_space (rev (dropWhile is_space s)))"

section \<open>Tag policy table (tagConfig.js)\<close>

record tag_config =
  config_label :: string
  config_category :: string
  config_description :: string
  config_contentType :: string
  config_selfClosing :: bool

definition tagConfigs :: "(string \<times> tag_config) list" where
  "tagConfigs =
    [(''set'', \<lparr>config_label = ''Set'', config_category = ''dynamic'',
        config_description = ''Sets variables using raw Twig expressions'',
        config_contentType = ''empty'', config_selfClosing = True\<rparr>),
     (''loop'', \<lparr>config_label = ''Loop'', config_category = ''dynamic'',
        config_description = ''Repeats content based on dynamic data'',
        config_contentType = ''blocks'', config_selfClosing = False\<rparr>),
     (''if'', \<lparr>config_label = ''If'', config_category = ''dynamic'',
        config_description = ''Conditionally displays content'',
        config_contentType = ''blocks'', config_selfClosing = False\<rparr>)]"

text \<open>
  \<^verbatim>\<open>tagConfigs[tagName.toLowerCase()] || null\<close>. The two names that the lookup finds
  on the prototype of the table (\<^verbatim>\<open>constructor\<close>, \<^verbatim>\<open>__proto__\<close>) give an
  object with neither \<^verbatim>\<open>selfClosing\<close> nor \<^verbatim>\<open>contentType\<close>, which every caller
  treats as it treats \<^verbatim>\<open>null\<close>; they are \<open>None\<close> here.
\<close>

definition getTagConfig :: "string \<Rightarrow> tag_config option" where
  "getTagConfig tagName = map_of tagConfigs (toLowerCase tagName)"

definition voidElements :: "string list" where
  "voidElements = [''img'', ''br'', ''hr'', ''input'', ''meta'', ''link'', ''area'', ''base'',
     ''col'', ''embed'', ''source'', ''track'', ''wbr'']"

definition isVoidElement :: "string \<Rightarrow> bool" where
  "isVoidElement tagName = (toLowerCase tagName \<in> set voidElements)"

section \<open>Reverse transcoder (blocksToHtml.js)\<close>

definition replaceAll :: "char \<Rightarrow> string \<Rightarrow> string \<Rightarrow> string" where
  "replaceAll c r s = concat (map (\<lambda>x. if x = c then r else [x]) s)"

definition escapeAttribute :: "jsval \<Rightarrow> error + string" where
  \<open>escapeAttribute v =
     (case (case v of JStr s \<Rightarrow> Inr s | _ \<Rightarrow> js_String v) of
        Inl e \<Rightarrow> Inl e
      | Inr value \<Rightarrow>
          Inr (replaceAll (CHR ''>'') ''&gt;''
                (replaceAll (CHR ''<'') ''&lt;''
                  (replaceAll (CHR 0x27) ''&#x27;''
                    (replaceAll (CHR 0x22) ''&quot;''
                      (replaceAll (CHR ''&'') ''&amp;'' value))))))\<close>

definition escapeAttributeName :: "string \<Rightarrow> string" where
  "escapeAttributeName name =
     filter (\<lambda>c. c \<in> set (lower_letters @ upper_letters @ digit_chars @ ''-_'')) name"

text \<open>
  \<^verbatim>\<open>Object.entries(v)\<close>: the own properties of an object, the indexed elements of
  an array or of a string, nothing for a number or a boolean, and a
  \<^verbatim>\<open>TypeError\<close> for \<^verbatim>\<open>null\<close> and \<^verbatim>\<open>undefined\<close>.
\<close>

fun object_entries :: "jsval \<Rightarrow> error + (string \<times> jsval) list" where
  "object_entries JUndefined = Inl TypeError"
| "object_entries JNull = Inl TypeError"
| "object_entries (JObj kvs) = Inr kvs"
| "object_entries (JArr xs) = Inr (zip (map show_nat [0..<length xs]) xs)"
| "object_entries (JStr s) = Inr (zip (map show_nat [0..<length s]) (map (\<lambda>c. JStr [c]) s))"
| "object_entries v = Inr []"

text \<open>
  Lines 49 to 61 of \<^verbatim>\<open>blockToHTML\<close>: the attributes string, built from the
  destructured \<^verbatim>\<open>className\<close> and \<^verbatim>\<open>globalAttrs\<close>. \<open>emitEntries\<close> is the
  loop \<^verbatim>\<open>forEach\<close> over the entries, which an exception leaves.
\<close>

fun emitEntries :: "(string \<times> jsval) list \<Rightarrow> string \<Rightarrow> error + string" where
  "emitEntries [] acc = Inr acc"
| "emitEntries ((name, value) # entries) acc =
     (if name \<noteq> [] \<and> value \<noteq> JUndefined \<and> value \<noteq> JStr []
      then (case escapeAttribute value of
              Inl e \<Rightarrow> Inl e
            | Inr v \<Rightarrow>
                emitEntries entries
                  (acc @ '' '' @ escapeAttributeName name @ ''='' @ [CHR 0x22] @ v @ [CHR 0x22]))
      else emitEntries entries acc)"

definition attributesString :: "jsval \<Rightarrow> jsval \<Rightarrow> error + string" where
  \<open>attributesString className globalAttrs =
     (case (if js_truthy className
            then (case escapeAttribute className of
                    Inl e \<Rightarrow> Inl e
                  | Inr c \<Rightarrow> Inr ('' class='' @ [CHR 0x22] @ c @ [CHR 0x22]))
            else Inr [])
      of Inl e \<Rightarrow> Inl e
       | Inr s0 \<Rightarrow>
           (case object_entries globalAttrs of
              Inl e \<Rightarrow> Inl e
            | Inr entries \<Rightarrow> emitEntries entries s0))\<close>

lemma js_prop_size: "js_prop b k = v \<Longrightarrow> v \<noteq> JUndefined \<Longrightarrow> size v < size b"
proof (cases b)
  case (JObj kvs)
  assume a: "js_prop b k = v" "v \<noteq> JUndefined"
  with JObj have "map_of kvs k = Some v"
    by (auto split: option.splits)
  then have "(k, v) \<in> set kvs"
    by (rule map_of_SomeD)
  then have "size v < Suc (size_list (size_prod (\<lambda>_. 0) size) kvs)"
    by (induction kvs) auto
  with JObj show ?thesis by simp
qed auto

text \<open>
  The end of \<^verbatim>\<open>blockToHTML\<close> (lines 93 to 106): the self-closing decision and the
  emitted markup. \<^verbatim>\<open>getTagConfig(tagName)\<close> calls \<^verbatim>\<open>tagName.toLowerCase()\<close>,
  which throws unless \<^verbatim>\<open>tagName\<close> is a string. The inner content is converted to
  a string by the template of the paired form only.
\<close>

definition emitElement :: "jsval \<Rightarrow> jsval \<Rightarrow> string \<Rightarrow> jsval \<Rightarrow> bool \<Rightarrow> int \<Rightarrow> error + string" where
  "emitElement tagName selfClosing attrString innerContent pretty indent =
     (case tagName of
        JStr t \<Rightarrow>
          let shouldBeSelfClosing =
                (case getTagConfig t of
                   Some config \<Rightarrow> config_selfClosing config
                 | None \<Rightarrow> js_truthy selfClosing \<or> isVoidElement t)
          in (case (if pretty then js_repeat ''  '' indent else Inr []) of
                Inl e \<Rightarrow> Inl e
              | Inr indentStr \<Rightarrow>
                  if shouldBeSelfClosing
                  then Inr (indentStr @ ''<'' @ t @ attrString @ '' />'')
                  else (case js_String innerContent of
                          Inl e \<Rightarrow> Inl e
                        | Inr inner \<Rightarrow>
                            Inr (indentStr @ ''<'' @ t @ attrString @ ''>''
                                   @ inner @ ''</'' @ t @ ''>'')))
      | _ \<Rightarrow> Inl TypeError)"

text \<open>The re-indentation of the children's markup in the \<^verbatim>\<open>blocks\<close> case (lines 78 to 83).\<close>

definition indentChildren :: "string \<Rightarrow> bool \<Rightarrow> int \<Rightarrow> error + string" where
  "indentChildren childHtml pretty indent =
     (if pretty \<and> childHtml \<noteq> []
      then (case js_repeat ''  '' (indent + 1) of
              Inl e \<Rightarrow> Inl e
            | Inr indentStr \<Rightarrow>
                (case js_repeat ''  '' indent of
                   Inl e \<Rightarrow> Inl e
                 | Inr closeStr \<Rightarrow>
                     Inr ([CHR 0x0A] @ indentStr
                            @ join ([CHR 0x0A] @ indentStr) (split (CHR 0x0A) childHtml)
                            @ [CHR 0x0A] @ closeStr)))
      else Inr childHtml)"

text \<open>
  \<^verbatim>\<open>parseBlocksToHTML(blocks, {pretty, indent})\<close> and \<^verbatim>\<open>blockToHTML\<close>. Of the
  options, \<open>pretty\<close> is the truth value of \<^verbatim>\<open>options.pretty\<close> and \<open>indent\<close> an
  integer. In the \<^verbatim>\<open>blocks\<close> case the test \<^verbatim>\<open>innerBlocks.length > 0\<close> converts
  the \<^verbatim>\<open>length\<close> of an object to a number, which can throw; whatever the test
  gives, inner blocks that are not an array give the empty inner content, since
  \<^verbatim>\<open>parseBlocksToHTML\<close> returns the empty string for them.
\<close>

function parseBlocksToHTML :: "jsval \<Rightarrow> bool \<Rightarrow> int \<Rightarrow> error + string"
  and blockToHTML :: "jsval \<Rightarrow> bool \<Rightarrow> int \<Rightarrow> error + string"
where
  "parseBlocksToHTML blocks pretty indent =
     (case blocks of
        JArr bs \<Rightarrow>
          (case sequenceE (map (\<lambda>block. blockToHTML block pretty indent) bs) of
             Inl e \<Rightarrow> Inl e
           | Inr hs \<Rightarrow> Inr (join (if pretty then [CHR 0x0A] else []) hs))
      | _ \<Rightarrow> Inr [])"
| "blockToHTML block pretty indent =
     (if \<not> js_truthy block \<or> js_prop block ''name'' \<noteq> JStr ''universal/element'' then Inr []
      else
        let attributes = js_prop block ''attributes'';
            innerBlocks = js_prop block ''innerBlocks''
        in if attributes = JUndefined \<or> attributes = JNull then Inl TypeError
        else
          let tagName = js_default (js_prop attributes ''tagName'') (JStr ''div'');
              contentType = js_default (js_prop attributes ''contentType'') (JStr ''text'');
              content = js_default (js_prop attributes ''content'') (JStr []);
              selfClosing = js_default (js_prop attributes ''selfClosing'') (JBool False);
              globalAttrs = js_default (js_prop attributes ''globalAttrs'') (JObj []);
              className = js_default (js_prop attributes ''className'') (JStr [])
          in case attributesString className globalAttrs of
               Inl e \<Rightarrow> Inl e
             | Inr attrString \<Rightarrow>
                 (case (if contentType = JStr ''text'' \<or> contentType = JStr ''html''
                        then Inr (if js_truthy content then content else JStr [])
                        else if contentType = JStr ''blocks''
                        then (case innerBlocks of
                                JArr bs \<Rightarrow>
                                  if bs \<noteq> []
                                  then (case parseBlocksToHTML innerBlocks pretty (indent + 1) of
                                          Inl e \<Rightarrow> Inl e
                                        | Inr childHtml \<Rightarrow>
                                            (case indentChildren childHtml pretty indent of
                                               Inl e \<Rightarrow> Inl e
                                             | Inr s \<Rightarrow> Inr (JStr s)))
                                  else Inr (JStr [])
                              | JObj kvs \<Rightarrow>
                                  (case js_ToPrimitive (js_prop innerBlocks ''length'') of
                                     Inl e \<Rightarrow> Inl e
                                   | Inr p \<Rightarrow> Inr (JStr []))
                              | _ \<Rightarrow> Inr (JStr []))
                        else Inr (JStr []))
                  of Inl e \<Rightarrow> Inl e
                   | Inr innerContent \<Rightarrow>
                       emitElement tagName selfClosing attrString innerContent pretty indent))"
  by pat_completeness auto
termination
proof (relation "measure (\<lambda>x. case x of Inl (b, _, _) \<Rightarrow> size b | Inr (b, _, _) \<Rightarrow> size b)",
    goal_cases)
  case 1
  show ?case by simp
next
  case (2 blocks pretty indent bs block)
  then show ?case
    by (auto simp: less_Suc_eq_le size_list_estimation')
next
  case (3 block pretty indent attributes innerBlocks)
  have "size (js_prop block ''innerBlocks'') < size block"
    by (rule js_prop_size [OF refl]) (use 3 in auto)
  with 3 show ?case by simp
qed

section \<open>Forward transcoder (htmlToBlocks.js)\<close>

text \<open>
  The DOM that the HTML parser (JSDOM) builds: an element with its \<^verbatim>\<open>tagName\<close>, its
  attributes in document order and its child nodes, a text node with its data, or a node
  of another type (a comment). The parser itself and the serialisation
  \<^verbatim>\<open>innerHTML\<close> belong to the library; the transcoder takes them as parameters.
\<close>

datatype node =
    Element string "(string \<times> string) list" "node list"
  | TextNode string
  | OtherNode

fun isElement :: "node \<Rightarrow> bool" where
  "isElement (Element tn attrs kids) = True"
| "isElement n = False"

fun textContent :: "node \<Rightarrow> string" where
  "textContent (TextNode d) = d"
| "textContent (Element tn attrs kids) = concat (map textContent kids)"
| "textContent OtherNode = []"

fun hasChildElements :: "node \<Rightarrow> bool" where
  "hasChildElements (Element tn attrs kids) = list_ex isElement kids"
| "hasChildElements n = False"

fun hasTextContent :: "node \<Rightarrow> bool" where
  "hasTextContent (Element tn attrs kids) =
     list_ex (\<lambda>child. case child of TextNode d \<Rightarrow> trim d \<noteq> [] | _ \<Rightarrow> False) kids"
| "hasTextContent n = False"

text \<open>
  \<^verbatim>\<open>Math.random\<close> is the only state of the module. It is modelled by the sequence
  of the values \<^verbatim>\<open>Math.random() * 16 | 0\<close> still to come; a draw takes the first
  one, reduced to the range from 0 to 15.
\<close>

type_synonym rng = "nat \<Rightarrow> nat"

definition next_random :: "rng \<Rightarrow> nat \<times> rng" where
  "next_random r = (r 0 mod 16, \<lambda>i. r (Suc i))"

fun replace_xy :: "string \<Rightarrow> rng \<Rightarrow> string \<times> rng" where
  "replace_xy [] r = ([], r)"
| "replace_xy (c # cs) r =
     (if c = CHR ''x'' \<or> c = CHR ''y''
      then let (n, r1) = next_random r;
               v = (if c = CHR ''x'' then n else (n AND 3) OR 8);
               (rest, r2) = replace_xy cs r1
           in (digit_char v # rest, r2)
      else let (rest, r1) = replace_xy cs r in (c # rest, r1))"

definition generateClientId :: "rng \<Rightarrow> string \<times> rng" where
  "generateClientId r = replace_xy ''xxxxxxxx-xxxx-4xxx-yxxx-xxxxxxxxxxxx'' r"

definition createBlock :: "string \<Rightarrow> jsval \<Rightarrow> jsval list \<Rightarrow> rng \<Rightarrow> jsval \<times> rng" where
  "createBlock name attributes innerBlocks r =
     (let (clientId, r1) = generateClientId r
      in (JObj [(''clientId'', JStr clientId),
                (''name'', JStr name),
                (''isValid'', JBool True),
                (''attributes'', attributes),
                (''innerBlocks'', JArr innerBlocks)], r1))"

text \<open>
  Assignment \<^verbatim>\<open>obj[k] = v\<close> of a primitive value to a property of an ordinary
  object, on the list of its entries: \<^verbatim>\<open>__proto__\<close> is the inherited setter, which
  ignores a primitive; an existing property keeps its place; a new array index (the
  canonical decimal form of a number up to \<open>2\<^sup>3\<^sup>2 - 2\<close>) goes among the indices, in
  ascending order before every other key; any other new key goes last.
\<close>

definition parse_int :: "string \<Rightarrow> int" where
  "parse_int k =
     foldl (\<lambda>n c. 10 * n
              + (case map_of (zip digit_chars [0, 1, 2, 3, 4, 5, 6, 7, 8, 9]) c of
                   Some d \<Rightarrow> d | None \<Rightarrow> 0)) 0 k"

definition is_array_index :: "string \<Rightarrow> bool" where
  "is_array_index k =
     (k \<noteq> [] \<and> (\<forall>c\<in>set k. c \<in> set digit_chars) \<and> (k = ''0'' \<or> take 1 k \<noteq> ''0'')
      \<and> parse_int k \<le> 4294967294)"

fun insert_index :: "string \<Rightarrow> jsval \<Rightarrow> (string \<times> jsval) list \<Rightarrow> (string \<times> jsval) list" where
  "insert_index k v [] = [(k, v)]"
| "insert_index k v ((k', v') # kvs) =
     (if is_array_index k' \<and> parse_int k' < parse_int k
      then (k', v') # insert_index k v kvs
      else (k, v) # (k', v') # kvs)"

definition js_set :: "(string \<times> jsval) list \<Rightarrow> string \<Rightarrow> jsval \<Rightarrow> (string \<times> jsval) list" where
  "js_set obj k v =
     (if k = ''__proto__'' then obj
      else if k \<in> fst ` set obj then map (\<lambda>(k', v'). if k' = k then (k', v) else (k', v')) obj
      else if is_array_index k then insert_index k v obj
      else obj @ [(k, v)])"

text \<open>One turn of the loop over \<^verbatim>\<open>node.attributes\<close>, on the pair of \<^verbatim>\<open>className\<close>
  and \<^verbatim>\<open>globalAttrs\<close>.\<close>

definition extractAttribute ::
  "string \<times> (string \<times> jsval) list \<Rightarrow> string \<times> string \<Rightarrow> string \<times> (string \<times> jsval) list" where
  "extractAttribute acc attr =
     (case (acc, attr) of
        ((className, globalAttrs), (name, value)) \<Rightarrow>
          if name = ''class'' then (value, globalAttrs)
          else if name = ''style'' then (className, js_set globalAttrs ''data-style'' (JStr value))
          else (className, js_set globalAttrs name (JStr value)))"

definition containerElements :: "string list" where
  "containerElements = [''div'', ''section'', ''article'', ''header'', ''footer'', ''main'', ''nav'',
     ''aside'', ''ul'', ''ol'', ''li'', ''form'', ''fieldset'', ''blockquote'', ''figure'', ''button'']"

definition textBlockAttributes :: "string \<Rightarrow> jsval" where
  "textBlockAttributes text =
     JObj [(''blockName'', JStr ''P''),
           (''tagName'', JStr ''p''),
           (''category'', JStr ''custom''),
           (''contentType'', JStr ''text''),
           (''content'', JStr text),
           (''selfClosing'', JBool False),
           (''uiState'', JObj [(''tagCategory'', JStr ''custom''),
                               (''selectedTagName'', JStr ''p''),
                               (''selectedContentType'', JStr ''text'')])]"

definition blockAttributes ::
  "string \<Rightarrow> string \<Rightarrow> bool \<Rightarrow> (string \<times> jsval) list \<Rightarrow> string \<Rightarrow> string \<Rightarrow> jsval" where
  "blockAttributes tagName contentType finalSelfClosing globalAttrs className content =
     JObj ([(''blockName'', JStr (toUpperCase (take 1 tagName) @ drop 1 tagName)),
            (''tagName'', JStr tagName),
            (''category'', JStr ''custom''),
            (''contentType'', JStr contentType),
            (''selfClosing'', JBool finalSelfClosing),
            (''globalAttrs'', JObj globalAttrs),
            (''uiState'', JObj [(''tagCategory'', JStr ''custom''),
                                (''selectedTagName'', JStr tagName),
                                (''selectedContentType'', JStr contentType)])]
           @ (if className \<noteq> [] then [(''className'', JStr className)] else [])
           @ (if contentType = ''text'' \<or> contentType = ''html''
              then [(''content'', JStr content)] else []))"

text \<open>
  \<^verbatim>\<open>nodeToBlock\<close>, and the loop that both \<^verbatim>\<open>parseHTMLToBlocks\<close> and the
  \<^verbatim>\<open>blocks\<close> branch run over child nodes, keeping the blocks that are not
  \<^verbatim>\<open>null\<close>. A block is created after its children, so it draws its identifier
  after theirs.
\<close>

fun nodeToBlock :: "(node \<Rightarrow> string) \<Rightarrow> node \<Rightarrow> rng \<Rightarrow> jsval option \<times> rng"
  and nodesToBlocks :: "(node \<Rightarrow> string) \<Rightarrow> node list \<Rightarrow> rng \<Rightarrow> jsval list \<times> rng"
where
  "nodeToBlock innerHTML (TextNode d) r =
     (let text = trim d
      in if text = [] then (None, r)
         else let (block, r1) = createBlock ''universal/element'' (textBlockAttributes text) [] r
              in (Some block, r1))"
| "nodeToBlock innerHTML (Element tn attrs kids) r =
     (let tagName = toLowerCase tn;
          config = getTagConfig tagName;
          isDynamicTag = (case config of Some c \<Rightarrow> config_selfClosing c | None \<Rightarrow> False);
          (className, globalAttrs) = foldl extractAttribute ([], []) attrs;
          isVoid = (tagName \<in> set voidElements);
          (contentType, content, innerBlocks, r1) =
            (if isDynamicTag
             then ((case config of
                      Some c \<Rightarrow> if config_contentType c \<noteq> [] then config_contentType c else ''empty''
                    | None \<Rightarrow> ''empty''), [], [], r)
             else if isVoid then (''empty'', [], [], r)
             else if tagName = ''svg'' then (''html'', innerHTML (Element tn attrs kids), [], r)
             else
               let hasElements = hasChildElements (Element tn attrs kids);
                   hasText = hasTextContent (Element tn attrs kids);
                   isContainer = (tagName \<in> set containerElements)
               in if hasElements \<and> isContainer
                  then (let (bs, r') = nodesToBlocks innerHTML kids r in (''blocks'', [], bs, r'))
                  else if hasElements then (''html'', innerHTML (Element tn attrs kids), [], r)
                  else if hasText then (''text'', textContent (Element tn attrs kids), [], r)
                  else (''empty'', [], [], r));
          finalSelfClosing = (case config of Some c \<Rightarrow> config_selfClosing c | None \<Rightarrow> isVoid);
          (block, r2) = createBlock ''universal/element''
             (blockAttributes tagName contentType finalSelfClosing globalAttrs className content)
             innerBlocks r1
      in (Some block, r2))"
| "nodeToBlock innerHTML OtherNode r = (None, r)"
| "nodesToBlocks innerHTML [] r = ([], r)"
| "nodesToBlocks innerHTML (n # ns) r =
     (let (block, r1) = nodeToBlock innerHTML n r;
          (blocks, r2) = nodesToBlocks innerHTML ns r1
      in ((case block of Some b \<Rightarrow> b # blocks | None \<Rightarrow> blocks), r2))"

text \<open>
  The preprocessing \<^verbatim>\<open>html.replace(/<(\w+)([^>]*?)\/>/g, ...)\<close>. A match at a
  \<^verbatim>\<open><\<close> takes the longest run of word characters as the tag name (a shorter run
  leaves word characters to the second group, which reaches the same
  \<^verbatim>\<open>/>\<close> or fails on the same \<^verbatim>\<open>>\<close>), then the shortest run of characters
  other than \<^verbatim>\<open>>\<close> that is followed by \<^verbatim>\<open>/>\<close>. \<open>match_attrs\<close> returns that
  run and the text after the match.
\<close>

fun match_attrs :: "string \<Rightarrow> (string \<times> string) option" where
  "match_attrs [] = None"
| "match_attrs (c # cs) =
     (if c = CHR ''/'' \<and> take 1 cs = ''>'' then Some ([], drop 1 cs)
      else if c = CHR ''>'' then None
      else (case match_attrs cs of None \<Rightarrow> None | Some (attrs, rest) \<Rightarrow> Some (c # attrs, rest)))"

definition match_selfclosing :: "string \<Rightarrow> (string \<times> string \<times> string) option" where
  "match_selfclosing s =
     (case s of
        [] \<Rightarrow> None
      | c # cs \<Rightarrow>
          if c = CHR ''<'' \<and> takeWhile is_word_char cs \<noteq> []
          then (case match_attrs (dropWhile is_word_char cs) of
                  None \<Rightarrow> None
                | Some (attrs, rest) \<Rightarrow> Some (takeWhile is_word_char cs, attrs, rest))
          else None)"

lemma match_attrs_length: "match_attrs s = Some (attrs, rest) \<Longrightarrow> length rest < length s"
  by (induction s arbitrary: attrs) (auto split: if_splits option.splits)

lemma match_selfclosing_length:
  assumes "match_selfclosing s = Some (tagName, attrs, rest)"
  shows "length rest < length s"
proof (cases s)
  case Nil
  with assms show ?thesis by (simp add: match_selfclosing_def)
next
  case (Cons c cs)
  with assms have "match_attrs (dropWhile is_word_char cs) = Some (attrs, rest)"
    by (auto simp: match_selfclosing_def split: if_splits option.splits)
  then have "length rest < length (dropWhile is_word_char cs)"
    by (rule match_attrs_length)
  also have "\<dots> \<le> length cs"
    by (rule length_dropWhile_le)
  finally show ?thesis using Cons by simp
qed

function replace_selfclosing :: "string \<Rightarrow> string" where
  "replace_selfclosing [] = []"
| "replace_selfclosing (c # cs) =
     (case match_selfclosing (c # cs) of
        None \<Rightarrow> c # replace_selfclosing cs
      | Some (tagName, attrs, rest) \<Rightarrow>
          (if (case getTagConfig (toLowerCase tagName) of
                 Some config \<Rightarrow> config_selfClosing config | None \<Rightarrow> False)
           then ''<'' @ tagName @ attrs @ ''></'' @ tagName @ ''>''
           else ''<'' @ tagName @ attrs @ ''/>'')
          @ replace_selfclosing rest)"
  by pat_completeness auto
termination
  by (relation "measure length") (auto dest: match_selfclosing_length)

text \<open>
  \<^verbatim>\<open>parseHTMLToBlocks(html)\<close> for any argument. \<open>parse\<close> stands for the parser:
  the child nodes of \<^verbatim>\<open>document.body.firstChild\<close> for a markup text, or \<open>None\<close>
  where there is no such node.
\<close>

definition parseHTMLToBlocks ::
  "(string \<Rightarrow> node list option) \<Rightarrow> (node \<Rightarrow> string) \<Rightarrow> jsval \<Rightarrow> rng \<Rightarrow> jsval list \<times> rng" where
  "parseHTMLToBlocks parse innerHTML html r =
     (case html of
        JStr s \<Rightarrow>
          if s = [] then ([], r)
          else
            let processedHtml = replace_selfclosing s
            in (case parse (''<div>'' @ processedHtml @ ''</div>'') of
                  None \<Rightarrow> ([], r)
                | Some childNodes \<Rightarrow> nodesToBlocks innerHTML childNodes r)
      | _ \<Rightarrow> ([], r))"

section \<open>Markup serializer (blocksToWpMarkup.js)\<close>

text \<open>
  \<^verbatim>\<open>JSON.stringify\<close> on a value of the model: a property whose value is
  \<^verbatim>\<open>undefined\<close> is left out of an object, and \<^verbatim>\<open>undefined\<close> prints as
  \<^verbatim>\<open>null\<close> inside an array. The serializer applies it to an object only.
\<close>

definition json_char :: "char \<Rightarrow> string" where
  "json_char c =
     (if c = CHR 0x22 then [CHR 0x5C, CHR 0x22]
      else if c = CHR 0x5C then [CHR 0x5C, CHR 0x5C]
      else if c = CHR 0x08 then [CHR 0x5C, CHR ''b'']
      else if c = CHR 0x0C then [CHR 0x5C, CHR ''f'']
      else if c = CHR 0x0A then [CHR 0x5C, CHR ''n'']
      else if c = CHR 0x0D then [CHR 0x5C, CHR ''r'']
      else if c = CHR 0x09 then [CHR 0x5C, CHR ''t'']
      else if (of_char c :: nat) < 32
      then [CHR 0x5C, CHR ''u'', CHR ''0'', CHR ''0'',
            digit_char ((of_char c :: nat) div 16), digit_char ((of_char c :: nat) mod 16)]
      else [c])"

definition json_string :: "string \<Rightarrow> string" where
  "json_string s = [CHR 0x22] @ concat (map json_char s) @ [CHR 0x22]"

fun JSON_stringify :: "jsval \<Rightarrow> string" where
  "JSON_stringify JUndefined = ''null''"
| "JSON_stringify JNull = ''null''"
| "JSON_stringify (JBool b) = (if b then ''true'' else ''false'')"
| "JSON_stringify (JNum n) = show_int (sint n)"
| "JSON_stringify (JStr s) = json_string s"
| "JSON_stringify (JArr xs) = ''['' @ join '','' (map JSON_stringify xs) @ '']''"
| "JSON_stringify (JObj kvs) =
     ''{'' @ join '',''
        (map (\<lambda>(k, v). json_string k @ '':'' @ JSON_stringify v)
           (filter (\<lambda>(k, v). v \<noteq> JUndefined) kvs)) @ ''}''"

text \<open>
  The comparison \<^verbatim>\<open>x > 0\<close> converts its operand to a primitive, which can throw,
  and the primitive to a number. The conversion of a string to a number is the
  language's own (\<^verbatim>\<open>StringToNumber\<close>); the serializer takes the comparison on
  strings as the parameter \<open>gt0\<close>.
\<close>

definition js_gt0 :: "(string \<Rightarrow> bool) \<Rightarrow> jsval \<Rightarrow> error + bool" where
  "js_gt0 gt0 v =
     (case js_ToPrimitive v of
        Inl e \<Rightarrow> Inl e
      | Inr p \<Rightarrow>
          Inr (case p of JNum n \<Rightarrow> 0 < sint n | JBool b \<Rightarrow> b | JStr s \<Rightarrow> gt0 s | _ \<Rightarrow> False))"

text \<open>
  The tests \<^verbatim>\<open>v.length === 0\<close> and \<^verbatim>\<open>v.length > 0\<close> on a truthy value: an array
  and a string have their length, an object its property of that name, a number and a
  boolean none.
\<close>

definition length_is_0 :: "jsval \<Rightarrow> bool" where
  "length_is_0 v =
     (case v of
        JArr xs \<Rightarrow> xs = []
      | JStr s \<Rightarrow> s = []
      | JObj kvs \<Rightarrow> js_prop v ''length'' = JNum 0
      | _ \<Rightarrow> False)"

definition length_gt_0 :: "(string \<Rightarrow> bool) \<Rightarrow> jsval \<Rightarrow> error + bool" where
  "length_gt_0 gt0 v =
     (case v of
        JArr xs \<Rightarrow> Inr (xs \<noteq> [])
      | JStr s \<Rightarrow> Inr (s \<noteq> [])
      | JObj kvs \<Rightarrow> js_gt0 gt0 (js_prop v ''length'')
      | _ \<Rightarrow> Inr False)"

text \<open>The spread \<^verbatim>\<open>{...v}\<close>: the own properties of \<open>v\<close>, none for a value without.\<close>

definition js_spread :: "jsval \<Rightarrow> (string \<times> jsval) list" where
  "js_spread v = (case object_entries v of Inl e \<Rightarrow> [] | Inr entries \<Rightarrow> entries)"

text \<open>
  The object \<^verbatim>\<open>blockAttrs\<close> of \<^verbatim>\<open>blockToWPMarkup\<close> (the spread of the
  attributes with the two defaulted fields), and its flag \<^verbatim>\<open>isSelfClosing\<close>.
\<close>

definition blockAttrs :: "jsval \<Rightarrow> (string \<times> jsval) list" where
  "blockAttrs attributes =
     (let blockAttrs0 = js_spread attributes;
          blockAttrs1 = (if \<not> js_truthy (js_prop (JObj blockAttrs0) ''isDynamic'')
                         then js_set blockAttrs0 ''isDynamic'' (JBool False)
                         else blockAttrs0)
      in if \<not> js_truthy (js_prop (JObj blockAttrs1) ''elementType'')
         then js_set blockAttrs1 ''elementType'' (JStr ''text'')
         else blockAttrs1)"

definition isSelfClosing :: "jsval \<Rightarrow> jsval \<Rightarrow> error + bool" where
  "isSelfClosing attributes innerBlocks =
     (if \<not> js_truthy innerBlocks \<or> length_is_0 innerBlocks
      then if attributes = JUndefined \<or> attributes = JNull then Inl TypeError
           else Inr (js_prop attributes ''contentType'' = JStr ''empty''
                     \<or> (js_prop attributes ''contentType'' = JStr ''text''
                         \<and> \<not> js_truthy (js_prop attributes ''content''))
                     \<or> (js_prop attributes ''contentType'' = JStr ''html''
                         \<and> \<not> js_truthy (js_prop attributes ''content'')))
      else Inr False)"

text \<open>
  \<^verbatim>\<open>parseBlocksToWPMarkup(blocks, {indent})\<close> and \<^verbatim>\<open>blockToWPMarkup\<close>, for an
  integer \<open>indent\<close>.
\<close>

function parseBlocksToWPMarkup :: "(string \<Rightarrow> bool) \<Rightarrow> jsval \<Rightarrow> int \<Rightarrow> error + string"
  and blockToWPMarkup :: "(string \<Rightarrow> bool) \<Rightarrow> jsval \<Rightarrow> int \<Rightarrow> error + string"
where
  "parseBlocksToWPMarkup gt0 blocks indent =
     (case blocks of
        JArr bs \<Rightarrow>
          (case sequenceE (map (\<lambda>block. blockToWPMarkup gt0 block indent) bs) of
             Inl e \<Rightarrow> Inl e
           | Inr ms \<Rightarrow> Inr (join [CHR 0x0A] ms))
      | _ \<Rightarrow> Inr [])"
| "blockToWPMarkup gt0 block indent =
     (if \<not> js_truthy block \<or> js_prop block ''name'' \<noteq> JStr ''universal/element'' then Inr []
      else
        let attributes = js_prop block ''attributes'';
            innerBlocks = js_prop block ''innerBlocks''
        in case js_repeat ''    '' indent of
             Inl e \<Rightarrow> Inl e
           | Inr indentStr \<Rightarrow>
               let attrsJson = JSON_stringify (JObj (blockAttrs attributes))
               in case isSelfClosing attributes innerBlocks of
                    Inl e \<Rightarrow> Inl e
                  | Inr selfClosing \<Rightarrow>
                      if selfClosing
                      then Inr (indentStr @ ''<!-- wp:universal/element '' @ attrsJson @ '' /-->'')
                      else
                        let out = indentStr @ ''<!-- wp:universal/element '' @ attrsJson @ '' -->''
                        in case (if js_truthy innerBlocks then length_gt_0 gt0 innerBlocks
                                 else Inr False) of
                             Inl e \<Rightarrow> Inl e
                           | Inr hasInner \<Rightarrow>
                               if hasInner
                               then (case parseBlocksToWPMarkup gt0 innerBlocks (indent + 1) of
                                       Inl e \<Rightarrow> Inl e
                                     | Inr children \<Rightarrow>
                                         Inr (out @ [CHR 0x0A] @ children @ [CHR 0x0A]
                                                @ indentStr @ ''<!-- /wp:universal/element -->''))
                               else Inr (out @ ''<!-- /wp:universal/element -->''))"
  by pat_completeness auto
termination
proof (relation "measure (\<lambda>x. case x of Inl (_, b, _) \<Rightarrow> size b | Inr (_, b, _) \<Rightarrow> size b)",
    goal_cases)
  case 1
  show ?case by simp
next
  case (2 gt0 blocks indent bs block)
  then show ?case
    by (auto simp: less_Suc_eq_le size_list_estimation')
next
  case 3
  then show ?case
    by (auto split: if_splits intro: js_prop_size)
qed

section \<open>Reading a block\<close>

text \<open>\<^verbatim>\<open>block.attributes[k]\<close>, the field \<open>k\<close> of the attributes of a block.\<close>

definition block_attr :: "jsval \<Rightarrow> string \<Rightarrow> jsval" where
  "block_attr block k = js_prop (js_prop block ''attributes'') k"

section \<open>Notions used to state the claims\<close>

text \<open>
  What the specification calls attribute escaping: each of the five characters is
  replaced by its entity, every other character is kept.
\<close>

definition entity :: "char \<Rightarrow> string" where
  "entity c =
     (if c = CHR ''&'' then ''&amp;''
      else if c = CHR 0x22 then ''&quot;''
      else if c = CHR 0x27 then ''&#x27;''
      else if c = CHR ''<'' then ''&lt;''
      else if c = CHR ''>'' then ''&gt;''
      else [c])"

text \<open>The characters of the class \<^verbatim>\<open>[A-Za-z0-9_-]\<close>.\<close>

definition name_char :: "char \<Rightarrow> bool" where
  "name_char c = (c \<in> set (lower_letters @ upper_letters @ digit_chars @ ''-_''))"

text \<open>
  A value that has no conversion to a string: an object with an own property
  \<^verbatim>\<open>toString\<close>, or an array that holds such a value. The text of any other value,
  which is what \<^verbatim>\<open>String(v)\<close> returns for it.
\<close>

fun unprintable :: "jsval \<Rightarrow> bool" where
  "unprintable (JObj kvs) = (''toString'' \<in> set (map fst kvs))"
| "unprintable (JArr xs) = (\<exists>x\<in>set xs. unprintable x)"
| "unprintable v = False"

fun js_text :: "jsval \<Rightarrow> string" where
  "js_text JUndefined = ''undefined''"
| "js_text JNull = ''null''"
| "js_text (JBool b) = (if b then ''true'' else ''false'')"
| "js_text (JNum n) = show_int (sint n)"
| "js_text (JStr s) = s"
| "js_text (JArr xs) =
     join '','' (map (\<lambda>x. if x = JUndefined \<or> x = JNull then [] else js_text x) xs)"
| "js_text (JObj kvs) = ''[object Object]''"

text \<open>
  The entries of the attribute map that the reverse transcoder emits, and the text it
  emits for one.
\<close>

definition emitted :: "string \<times> jsval \<Rightarrow> bool" where
  "emitted entry = (fst entry \<noteq> [] \<and> snd entry \<noteq> JUndefined \<and> snd entry \<noteq> JStr [])"

definition emit_attr :: "string \<times> jsval \<Rightarrow> string" where
  "emit_attr entry =
     '' '' @ filter name_char (fst entry) @ ''='' @ [CHR 0x22]
       @ concat (map entity (js_text (snd entry))) @ [CHR 0x22]"

text \<open>The inner content of an element block, before its conversion to a string.\<close>

definition innerContent :: "jsval \<Rightarrow> bool \<Rightarrow> int \<Rightarrow> error + jsval" where
  "innerContent block pretty indent =
     (if js_default (block_attr block ''contentType'') (JStr ''text'') = JStr ''text''
         \<or> js_default (block_attr block ''contentType'') (JStr ''text'') = JStr ''html''
      then Inr (if js_truthy (js_default (block_attr block ''content'') (JStr []))
                then js_default (block_attr block ''content'') (JStr []) else JStr [])
      else if js_default (block_attr block ''contentType'') (JStr ''text'') = JStr ''blocks''
      then (case js_prop block ''innerBlocks'' of
              JArr bs \<Rightarrow>
                if bs \<noteq> []
                then (case parseBlocksToHTML (js_prop block ''innerBlocks'') pretty (indent + 1) of
                        Inl e \<Rightarrow> Inl e
                      | Inr childHtml \<Rightarrow>
                          (case indentChildren childHtml pretty indent of
                             Inl e \<Rightarrow> Inl e
                           | Inr s \<Rightarrow> Inr (JStr s)))
                else Inr (JStr [])
            | JObj kvs \<Rightarrow>
                (case js_ToPrimitive (js_prop (js_prop block ''innerBlocks'') ''length'') of
                   Inl e \<Rightarrow> Inl e
                 | Inr p \<Rightarrow> Inr (JStr []))
            | _ \<Rightarrow> Inr (JStr []))
      else Inr (JStr []))"

text \<open>
  The self-closing decision of the reverse transcoder for an element block with a tag
  name (lines 94 to 97).
\<close>

definition closes_itself :: "jsval \<Rightarrow> bool" where
  "closes_itself block =
     (case js_default (block_attr block ''tagName'') (JStr ''div'') of
        JStr t \<Rightarrow>
          (case getTagConfig t of
             Some config \<Rightarrow> config_selfClosing config
           | None \<Rightarrow> js_truthy (block_attr block ''selfClosing'') \<or> isVoidElement t)
      | _ \<Rightarrow> False)"

text \<open>
  The payload invariant of a Block Node and, recursively, of its inner blocks: a
  non-empty content only under the content types \<^verbatim>\<open>text\<close> and \<^verbatim>\<open>html\<close>, inner
  blocks only under \<^verbatim>\<open>blocks\<close>, never both.
\<close>

function payload_exclusive :: "jsval \<Rightarrow> bool" where
  "payload_exclusive block =
     ((js_truthy (block_attr block ''content'')
        \<longrightarrow> block_attr block ''contentType'' = JStr ''text''
            \<or> block_attr block ''contentType'' = JStr ''html'')
      \<and> (case js_prop block ''innerBlocks'' of
            JArr bs \<Rightarrow>
              (bs \<noteq> [] \<longrightarrow> block_attr block ''contentType'' = JStr ''blocks'')
              \<and> \<not> (js_truthy (block_attr block ''content'') \<and> bs \<noteq> [])
              \<and> (\<forall>b\<in>set bs. payload_exclusive b)
          | _ \<Rightarrow> True))"
  by pat_completeness auto
termination
proof (relation "measure size", goal_cases)
  case 1
  show ?case by simp
next
  case (2 block bs b)
  have "size (js_prop block ''innerBlocks'') < size block"
    by (rule js_prop_size [OF refl]) (use 2 in auto)
  moreover have "size b < size (JArr bs)"
    using 2 by (auto simp: less_Suc_eq_le size_list_estimation')
  ultimately show ?case using 2 by simp
qed

declare payload_exclusive.simps [simp del]

text \<open>A block tree with the \<^verbatim>\<open>clientId\<close> of every block blanked.\<close>

fun erase_ids :: "jsval \<Rightarrow> jsval" where
  "erase_ids (JObj kvs) =
     JObj (map (\<lambda>(k, v).
             if k = ''clientId'' then (k, JStr [])
             else if k = ''innerBlocks''
             then (k, case v of JArr bs \<Rightarrow> JArr (map erase_ids bs) | _ \<Rightarrow> v)
             else (k, v)) kvs)"
| "erase_ids v = v"










section \<open>Evaluation lemmas\<close>

declare parseBlocksToHTML.simps [simp del] blockToHTML.simps [simp del]
  parseBlocksToWPMarkup.simps [simp del] blockToWPMarkup.simps [simp del]

lemmas char_tables = upper_letters_def lower_letters_def digit_chars_def latin_upper_def
  latin_lower_def

lemmas tag_tables = getTagConfig_def tagConfigs_def voidElements_def containerElements_def
  isVoidElement_def toLowerCase_def lower_char_def char_tables

lemma fst_createBlock:
  "fst (createBlock name attributes innerBlocks r) =
     JObj [(''clientId'', JStr (fst (generateClientId r))),
           (''name'', JStr name),
           (''isValid'', JBool True),
           (''attributes'', attributes),
           (''innerBlocks'', JArr innerBlocks)]"
  by (simp add: createBlock_def case_prod_beta)

section \<open>Lemmas on the reverse transcoder\<close>

lemma sequenceE_isl: "isl (sequenceE xs) \<longleftrightarrow> (\<exists>x\<in>set xs. isl x)"
  by (induction xs) (auto split: sum.splits)

lemma sequenceE_error: "sequenceE xs = Inl e \<Longrightarrow> Inl e \<in> set xs"
  by (induction xs) (auto split: sum.splits)

lemma sequenceE_map_Inr:
  assumes "sequenceE (map f xs) = Inr ys"
  shows "map Inr ys = map f xs"
  using assms by (induction xs arbitrary: ys) (auto split: sum.splits)

lemma js_String_isl: "isl (js_String v) \<longleftrightarrow> unprintable v"
proof (induction v rule: js_String.induct)
  case (6 xs)
  let ?f = "\<lambda>x. if x = JUndefined \<or> x = JNull then Inr [] else js_String x"
  have each: "isl (?f x) \<longleftrightarrow> unprintable x" if "x \<in> set xs" for x
  proof (cases "x = JUndefined \<or> x = JNull")
    case True
    then show ?thesis by auto
  next
    case False
    with 6 [OF that] show ?thesis by simp
  qed
  have "isl (js_String (JArr xs)) \<longleftrightarrow> isl (sequenceE (map ?f xs))"
    by (simp split: sum.splits)
  also have "\<dots> \<longleftrightarrow> (\<exists>x\<in>set xs. isl (?f x))"
    unfolding sequenceE_isl set_map by blast
  also have "\<dots> \<longleftrightarrow> (\<exists>x\<in>set xs. unprintable x)"
    using each by blast
  finally show ?case by simp
qed simp_all

lemma sequenceE_map_eq:
  assumes "sequenceE (map f xs) = Inr ys"
    and "\<And>x t. x \<in> set xs \<Longrightarrow> f x = Inr t \<Longrightarrow> t = g x"
  shows "ys = map g xs"
  using assms
proof (induction xs arbitrary: ys)
  case Nil
  then show ?case by simp
next
  case (Cons x xs)
  from Cons.prems(1) obtain t ts where t: "f x = Inr t" and ts: "sequenceE (map f xs) = Inr ts"
    and ys: "ys = t # ts"
    by (cases "f x"; cases "sequenceE (map f xs)") auto
  from Cons.prems(2) [OF _ t] have "t = g x" by simp
  moreover from Cons.IH [OF ts] Cons.prems(2) have "ts = map g xs" by simp
  ultimately show ?case using ys by simp
qed

lemma js_String_TypeError: "js_String v = Inl e \<Longrightarrow> e = TypeError"
proof (induction v arbitrary: e rule: js_String.induct)
  case (6 xs)
  let ?f = "\<lambda>x. if x = JUndefined \<or> x = JNull then Inr [] else js_String x"
  from 6(2) have "sequenceE (map ?f xs) = Inl e"
    by (cases "sequenceE (map ?f xs)") simp_all
  then have "Inl e \<in> set (map ?f xs)"
    by (rule sequenceE_error)
  then have "Inl e \<in> ?f ` set xs"
    by (simp only: set_map)
  then obtain x where x: "x \<in> set xs" "Inl e = ?f x"
    by (rule imageE)
  show ?case
  proof (cases "x = JUndefined \<or> x = JNull")
    case True
    with x(2) show ?thesis by simp
  next
    case False
    with x(2) have "js_String x = Inl e" by simp
    from 6(1) [OF x(1) False this] show ?thesis .
  qed
next
  case (7 kvs)
  then show ?case by (cases "''toString'' \<in> set (map fst kvs)") simp_all
qed simp_all

lemma js_String_text: "js_String v = Inr s \<Longrightarrow> s = js_text v"
proof (induction v arbitrary: s rule: js_String.induct)
  case (6 xs)
  let ?f = "\<lambda>x. if x = JUndefined \<or> x = JNull then Inr [] else js_String x"
  let ?g = "\<lambda>x. if x = JUndefined \<or> x = JNull then [] else js_text x"
  from 6(2) obtain ss where ss: "sequenceE (map ?f xs) = Inr ss" and s: "s = join '','' ss"
    by (cases "sequenceE (map ?f xs)") simp_all
  have "ss = map ?g xs"
  proof (rule sequenceE_map_eq [OF ss])
    fix x t assume x: "x \<in> set xs" and t: "?f x = Inr t"
    show "t = ?g x"
    proof (cases "x = JUndefined \<or> x = JNull")
      case True
      with t show ?thesis by simp
    next
      case False
      with t have "js_String x = Inr t" by simp
      from 6(1) [OF x False this] False show ?thesis by simp
    qed
  qed
  with s show ?case by simp
next
  case (7 kvs)
  then show ?case by (cases "''toString'' \<in> set (map fst kvs)") simp_all
next
  case (3 b)
  then show ?case by (cases b) simp_all
qed simp_all

lemma escape_char:
  "replaceAll (CHR ''>'') ''&gt;''
          (replaceAll (CHR ''<'') ''&lt;''
            (replaceAll (CHR 0x27) ''&#x27;''
              (replaceAll (CHR 0x22) ''&quot;''
                (replaceAll (CHR ''&'') ''&amp;'' [x])))) = entity x"
  by (simp add: replaceAll_def entity_def)

lemma escape_string:
  "replaceAll (CHR ''>'') ''&gt;''
          (replaceAll (CHR ''<'') ''&lt;''
            (replaceAll (CHR 0x27) ''&#x27;''
              (replaceAll (CHR 0x22) ''&quot;''
                (replaceAll (CHR ''&'') ''&amp;'' s)))) = concat (map entity s)"
proof (induction s)
  case Nil
  show ?case by (simp add: replaceAll_def)
next
  case (Cons x s)
  have app: "replaceAll c r (u @ v) = replaceAll c r u @ replaceAll c r v" for c r u v
    by (simp add: replaceAll_def)
  have "replaceAll (CHR ''>'') ''&gt;''
          (replaceAll (CHR ''<'') ''&lt;''
            (replaceAll (CHR 0x27) ''&#x27;''
              (replaceAll (CHR 0x22) ''&quot;''
                (replaceAll (CHR ''&'') ''&amp;'' ([x] @ s)))))
     = entity x @ concat (map entity s)"
    unfolding app by (simp only: Cons escape_char)
  then show ?case by simp
qed

lemma escapeAttribute_isl: "isl (escapeAttribute v) \<longleftrightarrow> unprintable v"
  using js_String_isl [of v]
  by (cases v) (auto simp: escapeAttribute_def split: sum.splits)

lemma escapeAttribute_TypeError: "escapeAttribute v = Inl e \<Longrightarrow> e = TypeError"
  using js_String_TypeError [of v e]
  by (cases v) (auto simp: escapeAttribute_def split: sum.splits if_splits)

lemma escapeAttribute_Inr: "escapeAttribute v = Inr s \<Longrightarrow> s = concat (map entity (js_text v))"
proof -
  assume a: "escapeAttribute v = Inr s"
  then obtain t where t: "(case v of JStr s \<Rightarrow> Inr s | _ \<Rightarrow> js_String v) = Inr t"
    and s: "s = concat (map entity t)"
    by (auto simp: escapeAttribute_def escape_string split: sum.splits)
  from t have "js_String v = Inr t"
    by (cases v) auto
  then have "t = js_text v" by (rule js_String_text)
  with s show ?thesis by simp
qed


lemma escapeAttributeName_filter: "escapeAttributeName name = filter name_char name"
  unfolding escapeAttributeName_def name_char_def [abs_def] by (rule refl)

lemma emitEntries_Inr:
  "emitEntries entries acc = Inr s \<Longrightarrow> s = acc @ concat (map emit_attr (filter emitted entries))"
proof (induction entries acc arbitrary: s rule: emitEntries.induct)
  case (1 acc)
  then show ?case by simp
next
  case (2 name v entries acc)
  show ?case
  proof (cases "emitted (name, v)")
    case True
    with 2(3) obtain e where e: "escapeAttribute v = Inr e"
      and r: "emitEntries entries (acc @ '' '' @ escapeAttributeName name @ ''='' @ [CHR 0x22] @ e @ [CHR 0x22]) = Inr s"
      by (auto simp: emitted_def split: sum.splits)
    from True have g: "name \<noteq> [] \<and> v \<noteq> JUndefined \<and> v \<noteq> JStr []"
      by (simp add: emitted_def)
    from 2(1) [OF g e r] escapeAttribute_Inr [OF e] True show ?thesis
      by (simp add: emit_attr_def escapeAttributeName_filter)
  next
    case False
    with 2(3) have r: "emitEntries entries acc = Inr s"
      by (auto simp: emitted_def)
    from False have g: "\<not> (name \<noteq> [] \<and> v \<noteq> JUndefined \<and> v \<noteq> JStr [])"
      by (simp add: emitted_def)
    from 2(2) [OF g r] False show ?thesis by simp
  qed
qed

lemma emitEntries_isl:
  "isl (emitEntries entries acc) \<longleftrightarrow> (\<exists>entry\<in>set entries. emitted entry \<and> unprintable (snd entry))"
proof (induction entries acc rule: emitEntries.induct)
  case (1 acc)
  show ?case by simp
next
  case (2 name v entries acc)
  show ?case
  proof (cases "emitted (name, v)")
    case True
    then have g: "name \<noteq> [] \<and> v \<noteq> JUndefined \<and> v \<noteq> JStr []"
      by (simp add: emitted_def)
    show ?thesis
    proof (cases "escapeAttribute v")
      case (Inl e)
      then have "unprintable v" using escapeAttribute_isl [of v] by simp
      with Inl g True show ?thesis by auto
    next
      case (Inr e)
      then have "\<not> unprintable v" using escapeAttribute_isl [of v] by simp
      with 2(1) [OF g Inr] Inr g show ?thesis by auto
    qed
  next
    case False
    then have g: "\<not> (name \<noteq> [] \<and> v \<noteq> JUndefined \<and> v \<noteq> JStr [])"
      by (simp add: emitted_def)
    from 2(2) [OF g] g False show ?thesis by auto
  qed
qed

lemma emitEntries_TypeError: "emitEntries entries acc = Inl e \<Longrightarrow> e = TypeError"
proof (induction entries acc rule: emitEntries.induct)
  case (1 acc)
  then show ?case by simp
next
  case (2 name v entries acc)
  show ?case
  proof (cases "name \<noteq> [] \<and> v \<noteq> JUndefined \<and> v \<noteq> JStr []")
    case True
    show ?thesis
    proof (cases "escapeAttribute v")
      case (Inl e')
      with True 2(3) have "e = e'" by simp
      with Inl show ?thesis by (simp add: escapeAttribute_TypeError)
    next
      case (Inr x)
      with True 2(3) 2(1) [OF True Inr] show ?thesis by simp
    qed
  next
    case False
    with 2(3) 2(2) [OF False] show ?thesis by simp
  qed
qed

lemma attributesString_Inr:
  assumes "attributesString className (JObj entries) = Inr s"
  shows "s = (if js_truthy className
              then '' class='' @ [CHR 0x22] @ concat (map entity (js_text className)) @ [CHR 0x22]
              else [])
             @ concat (map emit_attr (filter emitted entries))"
proof (cases "js_truthy className")
  case True
  with assms obtain c where c: "escapeAttribute className = Inr c"
    and e: "emitEntries entries ('' class='' @ [CHR 0x22] @ c @ [CHR 0x22]) = Inr s"
    by (auto simp: attributesString_def split: sum.splits)
  from emitEntries_Inr [OF e] escapeAttribute_Inr [OF c] True show ?thesis by simp
next
  case False
  with assms have "emitEntries entries [] = Inr s"
    by (auto simp: attributesString_def split: sum.splits)
  from emitEntries_Inr [OF this] False show ?thesis by simp
qed

lemma attributesString_isl:
  "isl (attributesString className globalAttrs) \<longleftrightarrow>
     (js_truthy className \<and> unprintable className)
     \<or> globalAttrs = JUndefined \<or> globalAttrs = JNull
     \<or> (\<exists>entry\<in>set (js_spread globalAttrs). emitted entry \<and> unprintable (snd entry))"
proof (cases "js_truthy className \<and> unprintable className")
  case True
  then have "isl (escapeAttribute className)" by (simp add: escapeAttribute_isl)
  with True show ?thesis
    by (auto simp: attributesString_def split: sum.splits)
next
  case False
  have "\<exists>s0. (if js_truthy className
            then (case escapeAttribute className of
                    Inl e \<Rightarrow> Inl e
                  | Inr c \<Rightarrow> Inr ('' class='' @ [CHR 0x22] @ c @ [CHR 0x22]))
            else Inr []) = Inr s0"
  proof (cases "js_truthy className")
    case True
    with False have "\<not> isl (escapeAttribute className)"
      by (simp add: escapeAttribute_isl)
    then obtain c where "escapeAttribute className = Inr c"
      by (cases "escapeAttribute className") auto
    with True show ?thesis by simp
  qed simp
  then obtain s0 where s0: "(if js_truthy className
            then (case escapeAttribute className of
                    Inl e \<Rightarrow> Inl e
                  | Inr c \<Rightarrow> Inr ('' class='' @ [CHR 0x22] @ c @ [CHR 0x22]))
            else Inr []) = Inr s0" ..
  show ?thesis
  proof (cases "object_entries globalAttrs")
    case (Inl e)
    then have "globalAttrs = JUndefined \<or> globalAttrs = JNull"
      by (cases globalAttrs) auto
    with Inl s0 show ?thesis
      by (auto simp: attributesString_def)
  next
    case (Inr entries)
    then have n: "globalAttrs \<noteq> JUndefined" "globalAttrs \<noteq> JNull"
      by auto
    from Inr have sp: "js_spread globalAttrs = entries"
      by (simp add: js_spread_def)
    have "attributesString className globalAttrs = emitEntries entries s0"
      unfolding attributesString_def s0 Inr by simp
    then have "isl (attributesString className globalAttrs)
        \<longleftrightarrow> (\<exists>entry\<in>set entries. emitted entry \<and> unprintable (snd entry))"
      by (simp only: emitEntries_isl)
    with False n sp show ?thesis
      by blast
  qed
qed

lemma object_entries_TypeError: "object_entries v = Inl e \<Longrightarrow> e = TypeError"
  by (cases v) auto

lemma attributesString_TypeError:
  assumes "attributesString className globalAttrs = Inl e"
  shows "e = TypeError"
proof (cases "(if js_truthy className
            then (case escapeAttribute className of
                    Inl e \<Rightarrow> Inl e
                  | Inr c \<Rightarrow> Inr ('' class='' @ [CHR 0x22] @ c @ [CHR 0x22]))
            else Inr [])")
  case (Inl e')
  with assms have "e = e'"
    by (simp add: attributesString_def)
  moreover from Inl have "escapeAttribute className = Inl e'"
    by (cases "escapeAttribute className") (auto split: if_splits)
  ultimately show ?thesis by (simp add: escapeAttribute_TypeError)
next
  case (Inr s0)
  show ?thesis
  proof (cases "object_entries globalAttrs")
    case (Inl e')
    with Inr assms have "e = e'" by (simp add: attributesString_def)
    with Inl show ?thesis by (simp add: object_entries_TypeError)
  next
    case entries: (Inr entries)
    with Inr assms have "emitEntries entries s0 = Inl e"
      by (simp add: attributesString_def)
    then show ?thesis by (rule emitEntries_TypeError)
  qed
qed

lemma parseBlocksToHTML_non_array:
  "(\<forall>bs. blocks \<noteq> JArr bs) \<Longrightarrow> parseBlocksToHTML blocks pretty indent = Inr []"
  by (subst parseBlocksToHTML.simps) (auto split: jsval.splits)

lemma parseBlocksToWPMarkup_non_array:
  "(\<forall>bs. blocks \<noteq> JArr bs) \<Longrightarrow> parseBlocksToWPMarkup gt0 blocks indent = Inr []"
  by (subst parseBlocksToWPMarkup.simps) (auto split: jsval.splits)

lemma parseBlocksToHTML_JArr:
  "parseBlocksToHTML (JArr bs) pretty indent =
     (case sequenceE (map (\<lambda>block. blockToHTML block pretty indent) bs) of
        Inl e \<Rightarrow> Inl e
      | Inr hs \<Rightarrow> Inr (join (if pretty then [CHR 0x0A] else []) hs))"
  by (subst parseBlocksToHTML.simps) simp

lemma parseBlocksToWPMarkup_JArr:
  "parseBlocksToWPMarkup gt0 (JArr bs) indent =
     (case sequenceE (map (\<lambda>block. blockToWPMarkup gt0 block indent) bs) of
        Inl e \<Rightarrow> Inl e
      | Inr ms \<Rightarrow> Inr (join [CHR 0x0A] ms))"
  by (subst parseBlocksToWPMarkup.simps) simp

lemma blockToHTML_element:
  assumes "js_truthy block" "js_prop block ''name'' = JStr ''universal/element''"
    and "js_prop block ''attributes'' \<noteq> JUndefined" "js_prop block ''attributes'' \<noteq> JNull"
  shows "blockToHTML block pretty indent =
    (case attributesString (js_default (block_attr block ''className'') (JStr []))
          (js_default (block_attr block ''globalAttrs'') (JObj [])) of
       Inl e \<Rightarrow> Inl e
     | Inr attrString \<Rightarrow>
        (case innerContent block pretty indent of
           Inl e \<Rightarrow> Inl e
         | Inr inner \<Rightarrow>
             emitElement (js_default (block_attr block ''tagName'') (JStr ''div''))
               (js_default (block_attr block ''selfClosing'') (JBool False))
               attrString inner pretty indent))"
  using assms unfolding block_attr_def innerContent_def
  by (subst blockToHTML.simps) (simp add: Let_def)

lemma blockToHTML_non_element:
  "block = JNull \<or> block = JUndefined \<or> js_prop block ''name'' \<noteq> JStr ''universal/element''
   \<Longrightarrow> blockToHTML block pretty indent = Inr []"
  by (subst blockToHTML.simps) auto

lemma blockToWPMarkup_non_element:
  "block = JNull \<or> block = JUndefined \<or> js_prop block ''name'' \<noteq> JStr ''universal/element''
   \<Longrightarrow> blockToWPMarkup gt0 block indent = Inr []"
  by (subst blockToWPMarkup.simps) auto

lemma blockToHTML_Inr_attributes:
  assumes "js_truthy block" "js_prop block ''name'' = JStr ''universal/element''"
    and "blockToHTML block pretty indent = Inr html"
  shows "js_prop block ''attributes'' \<noteq> JUndefined \<and> js_prop block ''attributes'' \<noteq> JNull"
proof (rule ccontr)
  assume "\<not> ?thesis"
  with assms(1,2) have "blockToHTML block pretty indent = Inl TypeError"
    by (subst blockToHTML.simps) (auto simp: Let_def)
  with assms(3) show False by simp
qed

lemma emitElement_Inr:
  assumes "emitElement tagName selfClosing attrString inner pretty indent = Inr html"
  shows "\<exists>t. tagName = JStr t
    \<and> (html = (if pretty then repeat ''  '' indent else []) @ ''<'' @ t @ attrString @ '' />''
        \<or> (\<exists>s. html = (if pretty then repeat ''  '' indent else []) @ ''<'' @ t @ attrString @ ''>''
                   @ s @ ''</'' @ t @ ''>''))"
proof (cases tagName)
  case (JStr t)
  let ?sc = "(case getTagConfig t of
                   Some config \<Rightarrow> config_selfClosing config
                 | None \<Rightarrow> js_truthy selfClosing \<or> isVoidElement t)"
  from assms JStr obtain indentStr where
    i: "(if pretty then js_repeat ''  '' indent else Inr []) = Inr indentStr"
    and r: "(if ?sc then Inr (indentStr @ ''<'' @ t @ attrString @ '' />'')
             else (case js_String inner of
                     Inl e \<Rightarrow> Inl e
                   | Inr s \<Rightarrow> Inr (indentStr @ ''<'' @ t @ attrString @ ''>''
                                   @ s @ ''</'' @ t @ ''>''))) = Inr html"
    by (cases "if pretty then js_repeat ''  '' indent else Inr []")
      (simp_all add: emitElement_def Let_def)
  from i have ind: "indentStr = (if pretty then repeat ''  '' indent else [])"
    by (auto simp: js_repeat_def split: if_splits)
  show ?thesis
  proof (cases ?sc)
    case True
    with r ind JStr show ?thesis by simp
  next
    case False
    with r obtain s where "js_String inner = Inr s"
      "html = indentStr @ ''<'' @ t @ attrString @ ''>'' @ s @ ''</'' @ t @ ''>''"
      by (cases "js_String inner") auto
    with ind JStr show ?thesis by blast
  qed
qed (use assms in \<open>simp_all add: emitElement_def\<close>)

lemma sequenceE_append:
  "sequenceE (xs @ ys) =
     (case sequenceE xs of Inl e \<Rightarrow> Inl e
      | Inr as \<Rightarrow> (case sequenceE ys of Inl e \<Rightarrow> Inl e | Inr bs \<Rightarrow> Inr (as @ bs)))"
  by (induction xs) (auto split: sum.splits)

lemma sequenceE_length: "sequenceE xs = Inr ys \<Longrightarrow> length ys = length xs"
  by (induction xs arbitrary: ys) (auto split: sum.splits)

lemma sequenceE_insert:
  "sequenceE (map f xs @ Inr z # map f ys) =
     (case sequenceE (map f (xs @ ys)) of
        Inl e \<Rightarrow> Inl e
      | Inr hs \<Rightarrow> Inr (take (length xs) hs @ z # drop (length xs) hs))"
  by (auto simp: sequenceE_append split: sum.splits dest: sequenceE_length)

lemma blockToWPMarkup_element:
  assumes "js_prop block ''name'' = JStr ''universal/element''" and "0 \<le> indent"
  shows "blockToWPMarkup gt0 block indent =
    (case isSelfClosing (js_prop block ''attributes'') (js_prop block ''innerBlocks'') of
       Inl e \<Rightarrow> Inl e
     | Inr selfClosing \<Rightarrow>
         if selfClosing
         then Inr (repeat ''    '' indent @ ''<!-- wp:universal/element ''
                     @ JSON_stringify (JObj (blockAttrs (js_prop block ''attributes''))) @ '' /-->'')
         else (case (if js_truthy (js_prop block ''innerBlocks'')
                     then length_gt_0 gt0 (js_prop block ''innerBlocks'') else Inr False) of
                 Inl e \<Rightarrow> Inl e
               | Inr hasInner \<Rightarrow>
                   if hasInner
                   then (case parseBlocksToWPMarkup gt0 (js_prop block ''innerBlocks'') (indent + 1) of
                           Inl e \<Rightarrow> Inl e
                         | Inr children \<Rightarrow>
                             Inr (repeat ''    '' indent @ ''<!-- wp:universal/element ''
                                    @ JSON_stringify (JObj (blockAttrs (js_prop block ''attributes'')))
                                    @ '' -->'' @ [CHR 0x0A] @ children @ [CHR 0x0A]
                                    @ repeat ''    '' indent @ ''<!-- /wp:universal/element -->''))
                   else Inr (repeat ''    '' indent @ ''<!-- wp:universal/element ''
                               @ JSON_stringify (JObj (blockAttrs (js_prop block ''attributes'')))
                               @ '' -->'' @ ''<!-- /wp:universal/element -->'')))"
proof -
  from assms(1) have truthy: "js_truthy block"
    by (cases block) auto
  show ?thesis
    using assms truthy
    by (subst blockToWPMarkup.simps, unfold Let_def)
      (simp add: js_repeat_def del: JSON_stringify.simps cong: sum.case_cong if_cong)
qed

lemma js_ToPrimitive_isl: "isl (js_ToPrimitive v) \<longleftrightarrow> unprintable v"
  using js_String_isl [of v]
  by (cases v) (auto simp: js_ToPrimitive_def split: sum.splits)

lemma js_repeat_isl: "isl (js_repeat s n) \<longleftrightarrow> n < 0"
  by (simp add: js_repeat_def)

lemma parseBlocksToHTML_isl:
  "isl (parseBlocksToHTML (JArr bs) pretty indent)
   \<longleftrightarrow> (\<exists>b\<in>set bs. isl (blockToHTML b pretty indent))"
proof -
  have "isl (parseBlocksToHTML (JArr bs) pretty indent)
    \<longleftrightarrow> isl (sequenceE (map (\<lambda>block. blockToHTML block pretty indent) bs))"
    unfolding parseBlocksToHTML_JArr by (simp split: sum.splits)
  also have "\<dots> \<longleftrightarrow> (\<exists>b\<in>set bs. isl (blockToHTML b pretty indent))"
    unfolding sequenceE_isl set_map by blast
  finally show ?thesis .
qed

lemma parseBlocksToWPMarkup_isl:
  "isl (parseBlocksToWPMarkup gt0 (JArr bs) indent)
   \<longleftrightarrow> (\<exists>b\<in>set bs. isl (blockToWPMarkup gt0 b indent))"
proof -
  have "isl (parseBlocksToWPMarkup gt0 (JArr bs) indent)
    \<longleftrightarrow> isl (sequenceE (map (\<lambda>block. blockToWPMarkup gt0 block indent) bs))"
    unfolding parseBlocksToWPMarkup_JArr by (simp split: sum.splits)
  also have "\<dots> \<longleftrightarrow> (\<exists>b\<in>set bs. isl (blockToWPMarkup gt0 b indent))"
    unfolding sequenceE_isl set_map by blast
  finally show ?thesis .
qed

lemma emitElement_isl:
  "isl (emitElement tagName selfClosing attrString inner pretty indent) \<longleftrightarrow>
     (\<forall>t. tagName \<noteq> JStr t) \<or> (pretty \<and> indent < 0)
     \<or> (\<exists>t. tagName = JStr t
           \<and> \<not> (case getTagConfig t of
                   Some config \<Rightarrow> config_selfClosing config
                 | None \<Rightarrow> js_truthy selfClosing \<or> isVoidElement t)
           \<and> unprintable inner)"
proof (cases tagName)
  case (JStr t)
  show ?thesis
  proof (cases "pretty \<and> indent < 0")
    case True
    with JStr show ?thesis
      by (simp add: emitElement_def js_repeat_def)
  next
    case False
    then have "\<exists>indentStr. (if pretty then js_repeat ''  '' indent else Inr []) = Inr indentStr"
      by (cases pretty) (simp_all add: js_repeat_def)
    then obtain indentStr where "(if pretty then js_repeat ''  '' indent else Inr []) = Inr indentStr" ..
    with JStr False js_String_isl [of inner] show ?thesis
      by (cases "js_String inner") (auto simp: emitElement_def Let_def)
  qed
qed (simp_all add: emitElement_def)

lemma indentChildren_isl:
  "isl (indentChildren childHtml pretty indent) \<longleftrightarrow> pretty \<and> childHtml \<noteq> [] \<and> indent < 0"
  by (auto simp: indentChildren_def js_repeat_def)

lemma innerContent_isl_blocks:
  assumes "block_attr block ''contentType'' = JStr ''blocks''"
    and "(\<exists>bs. js_prop block ''innerBlocks'' = JArr bs
            \<and> (\<exists>b\<in>set bs. isl (blockToHTML b pretty (indent + 1))))
         \<or> (\<exists>kvs. js_prop block ''innerBlocks'' = JObj kvs
              \<and> unprintable (js_prop (js_prop block ''innerBlocks'') ''length''))"
  shows "isl (innerContent block pretty indent)"
  using assms(2)
proof
  assume "\<exists>bs. js_prop block ''innerBlocks'' = JArr bs
            \<and> (\<exists>b\<in>set bs. isl (blockToHTML b pretty (indent + 1)))"
  then obtain bs where bs: "js_prop block ''innerBlocks'' = JArr bs"
    "\<exists>b\<in>set bs. isl (blockToHTML b pretty (indent + 1))"
    by blast
  then have "bs \<noteq> []" by auto
  moreover from bs have "isl (parseBlocksToHTML (JArr bs) pretty (indent + 1))"
    by (simp add: parseBlocksToHTML_isl)
  ultimately show ?thesis
    using assms(1) bs(1)
    by (cases "parseBlocksToHTML (JArr bs) pretty (indent + 1)")
      (simp_all add: innerContent_def js_default_def)
next
  assume "\<exists>kvs. js_prop block ''innerBlocks'' = JObj kvs
              \<and> unprintable (js_prop (js_prop block ''innerBlocks'') ''length'')"
  then obtain kvs where kvs: "js_prop block ''innerBlocks'' = JObj kvs"
    "unprintable (js_prop (JObj kvs) ''length'')"
    by auto
  from kvs(2) have "isl (js_ToPrimitive (js_prop (JObj kvs) ''length''))"
    by (simp only: js_ToPrimitive_isl)
  then show ?thesis
    using assms(1) kvs(1)
    by (cases "js_ToPrimitive (js_prop (JObj kvs) ''length'')")
      (simp_all add: innerContent_def js_default_def)
qed

lemma innerContent_isl_D:
  assumes "isl (innerContent block pretty indent)"
  shows "(block_attr block ''contentType'' = JStr ''blocks''
      \<and> ((\<exists>bs. js_prop block ''innerBlocks'' = JArr bs
            \<and> (\<exists>b\<in>set bs. isl (blockToHTML b pretty (indent + 1))))
         \<or> (\<exists>kvs. js_prop block ''innerBlocks'' = JObj kvs
              \<and> unprintable (js_prop (js_prop block ''innerBlocks'') ''length''))))
    \<or> (pretty \<and> indent < 0)"
proof -
  from assms have ct: "block_attr block ''contentType'' = JStr ''blocks''"
    by (auto simp: innerContent_def js_default_def split: if_splits)
  then have ct': "js_default (block_attr block ''contentType'') (JStr ''text'') = JStr ''blocks''"
    by (simp add: js_default_def)
  show ?thesis
  proof (cases "js_prop block ''innerBlocks''")
    case (JArr bs)
    show ?thesis
    proof (cases "parseBlocksToHTML (JArr bs) pretty (indent + 1)")
      case (Inl e)
      then have "isl (parseBlocksToHTML (JArr bs) pretty (indent + 1))" by simp
      then have "\<exists>b\<in>set bs. isl (blockToHTML b pretty (indent + 1))"
        by (simp only: parseBlocksToHTML_isl)
      with ct JArr show ?thesis by blast
    next
      case (Inr childHtml)
      with assms ct' JArr have "isl (indentChildren childHtml pretty indent)"
        by (cases "indentChildren childHtml pretty indent")
          (auto simp: innerContent_def split: if_splits)
      then show ?thesis by (simp add: indentChildren_isl)
    qed
  next
    case (JObj kvs)
    with assms ct' have "isl (js_ToPrimitive (js_prop (JObj kvs) ''length''))"
      by (cases "js_ToPrimitive (js_prop (JObj kvs) ''length'')")
        (auto simp: innerContent_def)
    then have "unprintable (js_prop (JObj kvs) ''length'')"
      by (simp only: js_ToPrimitive_isl)
    with ct JObj show ?thesis by auto
  qed (use assms ct' in \<open>simp_all add: innerContent_def\<close>)
qed

lemma innerContent_unprintable:
  assumes "innerContent block pretty indent = Inr inner"
  shows "unprintable inner \<longleftrightarrow>
     (block_attr block ''contentType'' = JUndefined
        \<or> block_attr block ''contentType'' = JStr ''text''
        \<or> block_attr block ''contentType'' = JStr ''html'')
     \<and> js_truthy (block_attr block ''content'') \<and> unprintable (block_attr block ''content'')"
proof (cases "js_default (block_attr block ''contentType'') (JStr ''text'') = JStr ''text''
         \<or> js_default (block_attr block ''contentType'') (JStr ''text'') = JStr ''html''")
  case True
  then have ct: "block_attr block ''contentType'' = JUndefined
        \<or> block_attr block ''contentType'' = JStr ''text''
        \<or> block_attr block ''contentType'' = JStr ''html''"
    by (auto simp: js_default_def split: if_splits)
  from True assms have "inner = (if js_truthy (js_default (block_attr block ''content'') (JStr []))
                then js_default (block_attr block ''content'') (JStr []) else JStr [])"
    by (auto simp: innerContent_def)
  with ct show ?thesis
    by (auto simp: js_default_def)
next
  case False
  then have ct: "\<not> (block_attr block ''contentType'' = JUndefined
        \<or> block_attr block ''contentType'' = JStr ''text''
        \<or> block_attr block ''contentType'' = JStr ''html'')"
    by (auto simp: js_default_def)
  from False assms have "\<exists>s. inner = JStr s"
    by (auto simp: innerContent_def split: if_splits jsval.splits sum.splits)
  with ct show ?thesis by auto
qed

lemma blockToHTML_isl:
  "isl (blockToHTML block pretty indent) \<longleftrightarrow>
     js_truthy block \<and> js_prop block ''name'' = JStr ''universal/element''
     \<and> (js_prop block ''attributes'' = JUndefined
         \<or> js_prop block ''attributes'' = JNull
         \<or> (js_truthy (block_attr block ''className'') \<and> unprintable (block_attr block ''className''))
         \<or> block_attr block ''globalAttrs'' = JNull
         \<or> (\<exists>entry\<in>set (js_spread (block_attr block ''globalAttrs'')).
               emitted entry \<and> unprintable (snd entry))
         \<or> (block_attr block ''contentType'' = JStr ''blocks''
             \<and> ((\<exists>bs. js_prop block ''innerBlocks'' = JArr bs
                    \<and> (\<exists>b\<in>set bs. isl (blockToHTML b pretty (indent + 1))))
                 \<or> (\<exists>kvs. js_prop block ''innerBlocks'' = JObj kvs
                      \<and> unprintable (js_prop (js_prop block ''innerBlocks'') ''length''))))
         \<or> (block_attr block ''tagName'' \<noteq> JUndefined
             \<and> (\<forall>t. block_attr block ''tagName'' \<noteq> JStr t))
         \<or> (pretty \<and> indent < 0)
         \<or> ((block_attr block ''contentType'' = JUndefined
               \<or> block_attr block ''contentType'' = JStr ''text''
               \<or> block_attr block ''contentType'' = JStr ''html'')
             \<and> js_truthy (block_attr block ''content'')
             \<and> unprintable (block_attr block ''content'')
             \<and> \<not> closes_itself block))"
  (is "?L \<longleftrightarrow> _ \<and> _ \<and> ?R")
proof (cases "js_truthy block \<and> js_prop block ''name'' = JStr ''universal/element''")
  case False
  then have "blockToHTML block pretty indent = Inr []"
    by (subst blockToHTML.simps) auto
  with False show ?thesis by auto
next
  case elem: True
  show ?thesis
  proof (cases "js_prop block ''attributes'' = JUndefined \<or> js_prop block ''attributes'' = JNull")
    case True
    with elem have "blockToHTML block pretty indent = Inl TypeError"
      by (subst blockToHTML.simps) (auto simp: Let_def)
    with elem True show ?thesis by auto
  next
    case attrs: False
    let ?cn = "js_default (block_attr block ''className'') (JStr [])"
    let ?ga = "js_default (block_attr block ''globalAttrs'') (JObj [])"
    let ?tag = "js_default (block_attr block ''tagName'') (JStr ''div'')"
    let ?sc = "js_default (block_attr block ''selfClosing'') (JBool False)"
    from attrs have a: "js_prop block ''attributes'' \<noteq> JUndefined" "js_prop block ''attributes'' \<noteq> JNull"
      by simp_all
    note unfold = blockToHTML_element [OF conjunct1 [OF elem] conjunct2 [OF elem] a, of pretty indent]
    have A: "isl (attributesString ?cn ?ga) \<longleftrightarrow>
        (js_truthy (block_attr block ''className'') \<and> unprintable (block_attr block ''className''))
        \<or> block_attr block ''globalAttrs'' = JNull
        \<or> (\<exists>entry\<in>set (js_spread (block_attr block ''globalAttrs'')).
               emitted entry \<and> unprintable (snd entry))"
      unfolding attributesString_isl
      by (cases "block_attr block ''className'' = JUndefined";
          cases "block_attr block ''globalAttrs'' = JUndefined")
        (simp_all add: js_default_def js_spread_def)
    have tag: "(\<forall>t. ?tag \<noteq> JStr t)
        \<longleftrightarrow> block_attr block ''tagName'' \<noteq> JUndefined \<and> (\<forall>t. block_attr block ''tagName'' \<noteq> JStr t)"
      by (auto simp: js_default_def)
    have sc: "(\<exists>t. ?tag = JStr t
           \<and> \<not> (case getTagConfig t of
                   Some config \<Rightarrow> config_selfClosing config
                 | None \<Rightarrow> js_truthy ?sc \<or> isVoidElement t)
           \<and> P) \<longleftrightarrow> (\<exists>t. ?tag = JStr t) \<and> \<not> closes_itself block \<and> P" for P
      by (cases "?tag"; cases "block_attr block ''selfClosing'' = JUndefined")
        (auto simp: closes_itself_def js_default_def split: option.splits)
    show ?thesis
    proof (cases "attributesString ?cn ?ga")
      case (Inl e)
      then have "?L" unfolding unfold by simp
      moreover from Inl have "isl (attributesString ?cn ?ga)" by simp
      then have "?R" unfolding A by blast
      ultimately show ?thesis using elem by blast
    next
      case as: (Inr attrString)
      then have nA: "\<not> isl (attributesString ?cn ?ga)" by simp
      show ?thesis
      proof (cases "innerContent block pretty indent")
        case (Inl e)
        then have "?L" unfolding unfold as by simp
        moreover from Inl have "isl (innerContent block pretty indent)" by simp
        from innerContent_isl_D [OF this] have "?R" by blast
        ultimately show ?thesis using elem by blast
      next
        case (Inr inner)
        then have "\<not> isl (innerContent block pretty indent)" by simp
        with innerContent_isl_blocks [of block pretty indent]
        have nI: "\<not> (block_attr block ''contentType'' = JStr ''blocks''
             \<and> ((\<exists>bs. js_prop block ''innerBlocks'' = JArr bs
                    \<and> (\<exists>b\<in>set bs. isl (blockToHTML b pretty (indent + 1))))
                 \<or> (\<exists>kvs. js_prop block ''innerBlocks'' = JObj kvs
                      \<and> unprintable (js_prop (js_prop block ''innerBlocks'') ''length''))))"
          by blast
        have L: "?L \<longleftrightarrow> isl (emitElement ?tag ?sc attrString inner pretty indent)"
          unfolding unfold as Inr by simp
        note M = emitElement_isl [of ?tag ?sc attrString inner pretty indent,
            unfolded sc tag innerContent_unprintable [OF Inr]]
        from nA [unfolded A] nI attrs elem show ?thesis
          unfolding L M using tag by blast
      qed
    qed
  qed
qed

lemma isSelfClosing_isl:
  "isl (isSelfClosing attributes innerBlocks) \<longleftrightarrow>
     (attributes = JUndefined \<or> attributes = JNull)
     \<and> (\<not> js_truthy innerBlocks \<or> length_is_0 innerBlocks)"
  by (auto simp: isSelfClosing_def)

lemma length_gt_0_isl:
  "isl (length_gt_0 gt0 v) \<longleftrightarrow> (\<exists>kvs. v = JObj kvs \<and> unprintable (js_prop v ''length''))"
proof (cases v)
  case (JObj kvs)
  have "isl (js_gt0 gt0 u) \<longleftrightarrow> isl (js_ToPrimitive u)" for u
    by (cases "js_ToPrimitive u") (simp_all add: js_gt0_def)
  with JObj show ?thesis
    by (simp add: length_gt_0_def js_ToPrimitive_isl)
qed (simp_all add: length_gt_0_def)

lemma blockToWPMarkup_isl:
  "isl (blockToWPMarkup gt0 block indent) \<longleftrightarrow>
     js_truthy block \<and> js_prop block ''name'' = JStr ''universal/element''
     \<and> (indent < 0
         \<or> ((js_prop block ''attributes'' = JUndefined \<or> js_prop block ''attributes'' = JNull)
             \<and> (\<not> js_truthy (js_prop block ''innerBlocks'')
                 \<or> length_is_0 (js_prop block ''innerBlocks'')))
         \<or> (\<exists>kvs. js_prop block ''innerBlocks'' = JObj kvs
              \<and> unprintable (js_prop (js_prop block ''innerBlocks'') ''length''))
         \<or> (\<exists>bs. js_prop block ''innerBlocks'' = JArr bs
              \<and> (\<exists>b\<in>set bs. isl (blockToWPMarkup gt0 b (indent + 1)))))"
  (is "?L \<longleftrightarrow> _ \<and> _ \<and> ?R")
proof (cases "js_truthy block \<and> js_prop block ''name'' = JStr ''universal/element''")
  case False
  then have "blockToWPMarkup gt0 block indent = Inr []"
    by (subst blockToWPMarkup.simps) auto
  with False show ?thesis by auto
next
  case elem: True
  show ?thesis
  proof (cases "indent < 0")
    case True
    with elem have "blockToWPMarkup gt0 block indent = Inl RangeError"
      by (subst blockToWPMarkup.simps) (simp add: Let_def js_repeat_def)
    with elem True show ?thesis by simp
  next
    case False
    then have i: "0 \<le> indent" by simp
    let ?a = "js_prop block ''attributes''"
    let ?ib = "js_prop block ''innerBlocks''"
    note unfold = blockToWPMarkup_element [OF conjunct2 [OF elem] i, of gt0]
    show ?thesis
    proof (cases "isSelfClosing ?a ?ib")
      case (Inl e)
      then have "?L" unfolding unfold by simp
      moreover from Inl have "isl (isSelfClosing ?a ?ib)" by simp
      then have "?R" unfolding isSelfClosing_isl by blast
      ultimately show ?thesis using elem by blast
    next
      case sc: (Inr selfClosing)
      then have "\<not> isl (isSelfClosing ?a ?ib)" by simp
      then have n2: "\<not> ((?a = JUndefined \<or> ?a = JNull) \<and> (\<not> js_truthy ?ib \<or> length_is_0 ?ib))"
        unfolding isSelfClosing_isl .
      show ?thesis
      proof (cases selfClosing)
        case True
        with sc have nl: "\<not> ?L" unfolding unfold by simp
        from True sc have e: "\<not> js_truthy ?ib \<or> length_is_0 ?ib"
          by (auto simp: isSelfClosing_def split: if_splits)
        then have "\<not> (\<exists>kvs. ?ib = JObj kvs \<and> unprintable (js_prop ?ib ''length''))"
          by (auto simp: length_is_0_def)
        moreover from e have "\<not> (\<exists>bs. ?ib = JArr bs
              \<and> (\<exists>b\<in>set bs. isl (blockToWPMarkup gt0 b (indent + 1))))"
          by (auto simp: length_is_0_def)
        ultimately show ?thesis using nl n2 False by blast
      next
        case nsc: False
        show ?thesis
        proof (cases "if js_truthy ?ib then length_gt_0 gt0 ?ib else Inr False")
          case (Inl e)
          with sc nsc have "?L" unfolding unfold by simp
          moreover from Inl have "isl (length_gt_0 gt0 ?ib)"
            by (auto split: if_splits)
          then have "?R" unfolding length_gt_0_isl by blast
          ultimately show ?thesis using elem by blast
        next
          case gt: (Inr hasInner)
          then have n3: "\<not> (\<exists>kvs. ?ib = JObj kvs \<and> unprintable (js_prop ?ib ''length''))"
            using length_gt_0_isl [of gt0 ?ib] by (auto split: if_splits)
          show ?thesis
          proof (cases hasInner)
            case True
            with sc nsc gt have L: "?L \<longleftrightarrow> isl (parseBlocksToWPMarkup gt0 ?ib (indent + 1))"
              unfolding unfold
              by (cases "parseBlocksToWPMarkup gt0 ?ib (indent + 1)") simp_all
            show ?thesis
            proof (cases ?ib)
              case (JArr bs)
              with L parseBlocksToWPMarkup_isl [of gt0 bs "indent + 1"] n2 n3 False elem
              show ?thesis by auto
            qed (use L n2 n3 False elem in \<open>simp_all add: parseBlocksToWPMarkup_non_array\<close>)
          next
            case nh: False
            with sc nsc gt have nl: "\<not> ?L" unfolding unfold by simp
            from nh gt have "\<not> (\<exists>bs. ?ib = JArr bs
              \<and> (\<exists>b\<in>set bs. isl (blockToWPMarkup gt0 b (indent + 1))))"
              by (auto simp: length_gt_0_def split: if_splits)
            with nl n2 n3 False show ?thesis by blast
          qed
        qed
      qed
    qed
  qed
qed

section \<open>Lemmas on the forward transcoder\<close>

lemma payload_exclusive_createBlock:
  "payload_exclusive (fst (createBlock name (JObj as) bs r)) \<longleftrightarrow>
     (js_truthy (js_prop (JObj as) ''content'')
        \<longrightarrow> js_prop (JObj as) ''contentType'' = JStr ''text''
            \<or> js_prop (JObj as) ''contentType'' = JStr ''html'')
     \<and> (bs \<noteq> [] \<longrightarrow> js_prop (JObj as) ''contentType'' = JStr ''blocks'')
     \<and> \<not> (js_truthy (js_prop (JObj as) ''content'') \<and> bs \<noteq> [])
     \<and> (\<forall>b\<in>set bs. payload_exclusive b)"
  by (subst payload_exclusive.simps) (simp add: fst_createBlock block_attr_def)

lemma nodesToBlocks_all:
  assumes "\<And>n r b. n \<in> set ns \<Longrightarrow> fst (nodeToBlock ih n r) = Some b \<Longrightarrow> P b"
  shows "\<forall>b\<in>set (fst (nodesToBlocks ih ns r)). P b"
  using assms
proof (induction ns arbitrary: r)
  case Nil
  show ?case by simp
next
  case (Cons n ns)
  show ?case
    using Cons.prems [of n r] Cons.IH [of "snd (nodeToBlock ih n r)"] Cons.prems
    by (auto simp: case_prod_beta split: option.splits)
qed

lemma nodeToBlock_payload_exclusive:
  "fst (nodeToBlock ih n r) = Some b \<Longrightarrow> payload_exclusive b"
proof (induction n arbitrary: r b)
  case (Element tn attrs kids)
  have kids: "\<forall>b\<in>set (fst (nodesToBlocks ih kids r)). payload_exclusive b"
    by (rule nodesToBlocks_all) (rule Element.IH)
  from Element.prems kids show ?case
    by (auto simp: Let_def case_prod_beta blockAttributes_def payload_exclusive_createBlock
        split: if_splits option.splits)
next
  case (TextNode d)
  then show ?case
    by (auto simp: Let_def case_prod_beta textBlockAttributes_def payload_exclusive_createBlock
        split: if_splits)
next
  case OtherNode
  then show ?case by simp
qed

lemma erase_ids_createBlock:
  "erase_ids (fst (createBlock name attributes bs r)) =
     JObj [(''clientId'', JStr []), (''name'', JStr name), (''isValid'', JBool True),
           (''attributes'', attributes), (''innerBlocks'', JArr (map erase_ids bs))]"
  by (simp add: fst_createBlock)

lemma nodesToBlocks_erase:
  assumes "\<And>n r1 r2. n \<in> set ns \<Longrightarrow>
     map_option erase_ids (fst (nodeToBlock ih n r1)) = map_option erase_ids (fst (nodeToBlock ih n r2))"
  shows "map erase_ids (fst (nodesToBlocks ih ns r1)) = map erase_ids (fst (nodesToBlocks ih ns r2))"
  using assms
proof (induction ns arbitrary: r1 r2)
  case Nil
  show ?case by simp
next
  case (Cons n ns)
  have tl: "map erase_ids (fst (nodesToBlocks ih ns (snd (nodeToBlock ih n r1))))
      = map erase_ids (fst (nodesToBlocks ih ns (snd (nodeToBlock ih n r2))))"
    by (rule Cons.IH) (simp add: Cons.prems)
  have hd: "map_option erase_ids (fst (nodeToBlock ih n r1)) = map_option erase_ids (fst (nodeToBlock ih n r2))"
    by (rule Cons.prems) simp
  show ?case
    using hd tl
    by (cases "fst (nodeToBlock ih n r1)"; cases "fst (nodeToBlock ih n r2)")
      (simp_all add: case_prod_beta)
qed

lemma nodeToBlock_erase:
  "map_option erase_ids (fst (nodeToBlock ih n r1)) = map_option erase_ids (fst (nodeToBlock ih n r2))"
proof (induction n arbitrary: r1 r2)
  case (Element tn attrs kids)
  have kids: "map erase_ids (fst (nodesToBlocks ih kids r1)) = map erase_ids (fst (nodesToBlocks ih kids r2))"
    by (rule nodesToBlocks_erase) (rule Element.IH)
  show ?case
    unfolding nodeToBlock.simps Let_def case_prod_beta fst_conv snd_conv option.map erase_ids_createBlock
    using kids by simp
next
  case (TextNode d)
  show ?case
    by (simp add: Let_def case_prod_beta erase_ids_createBlock del: erase_ids.simps)
next
  case OtherNode
  show ?case by simp
qed

lemma nodesToBlocks_map_filter:
  "map erase_ids (fst (nodesToBlocks ih ns r))
   = List.map_filter (\<lambda>k. map_option erase_ids (fst (nodeToBlock ih k r'))) ns"
proof (induction ns arbitrary: r)
  case Nil
  show ?case by (simp add: map_filter_simps)
next
  case (Cons n ns)
  have hd: "map_option erase_ids (fst (nodeToBlock ih n r)) = map_option erase_ids (fst (nodeToBlock ih n r'))"
    by (rule nodeToBlock_erase)
  show ?case
    using hd Cons.IH [of "snd (nodeToBlock ih n r)"]
    by (cases "fst (nodeToBlock ih n r)"; cases "fst (nodeToBlock ih n r')")
      (simp_all add: case_prod_beta map_filter_simps)
qed

lemma element_block_fields:
  assumes "getTagConfig (toLowerCase tn) = None"
  shows "map_option
      (\<lambda>b. (block_attr b ''contentType'', block_attr b ''content'', js_prop b ''innerBlocks''))
      (fst (nodeToBlock innerHTML (Element tn attrs kids) r))
    = Some
       (if toLowerCase tn \<in> set [''img'', ''br'', ''hr'', ''input'', ''meta'', ''link'', ''area'',
             ''base'', ''col'', ''embed'', ''source'', ''track'', ''wbr'']
        then (JStr ''empty'', JUndefined, JArr [])
        else if toLowerCase tn = ''svg''
        then (JStr ''html'', JStr (innerHTML (Element tn attrs kids)), JArr [])
        else if (\<exists>k\<in>set kids. isElement k)
          \<and> toLowerCase tn \<in> set [''div'', ''section'', ''article'', ''header'', ''footer'', ''main'',
                ''nav'', ''aside'', ''ul'', ''ol'', ''li'', ''form'', ''fieldset'', ''blockquote'',
                ''figure'', ''button'']
        then (JStr ''blocks'', JUndefined, JArr (fst (nodesToBlocks innerHTML kids r)))
        else if (\<exists>k\<in>set kids. isElement k)
        then (JStr ''html'', JStr (innerHTML (Element tn attrs kids)), JArr [])
        else if (\<exists>d. TextNode d \<in> set kids \<and> trim d \<noteq> [])
        then (JStr ''text'', JStr (textContent (Element tn attrs kids)), JArr [])
        else (JStr ''empty'', JUndefined, JArr []))"
proof -
  have "(case child of TextNode d \<Rightarrow> trim d \<noteq> [] | _ \<Rightarrow> False)
      \<longleftrightarrow> (\<exists>d. child = TextNode d \<and> trim d \<noteq> [])" for child
    by (cases child) auto
  then have ht: "hasTextContent (Element tn attrs kids) \<longleftrightarrow> (\<exists>d. TextNode d \<in> set kids \<and> trim d \<noteq> [])"
    by (auto simp: list_ex_iff)
  have he: "hasChildElements (Element tn attrs kids) \<longleftrightarrow> (\<exists>k\<in>set kids. isElement k)"
    by (simp add: list_ex_iff)
  show ?thesis
    unfolding nodeToBlock.simps Let_def ht he assms
    by (simp add: voidElements_def containerElements_def blockAttributes_def block_attr_def
        fst_createBlock case_prod_beta del: hasTextContent.simps hasChildElements.simps
        textContent.simps) blast
qed

section \<open>Lemmas on the round trip\<close>


































section \<open>The claims\<close>

text \<open>
  C2. Claimed: an element whose tag has a policy entry takes its content type from the
  entry, so that a \<^verbatim>\<open>loop\<close> element has the content type \<^verbatim>\<open>blocks\<close> whatever its
  children are. The transcoder consults the entry for the content type only when the
  entry is self-closing: a \<^verbatim>\<open>loop\<close> element with an element child is classified by
  its structure, and since \<^verbatim>\<open>loop\<close> is not a container tag its content type is
  \<^verbatim>\<open>html\<close>, its content the inner markup, and it has no inner blocks.
\<close>

theorem loop_with_element_child_is_html:
  "map_option (\<lambda>b. (block_attr b ''contentType'', block_attr b ''content'', js_prop b ''innerBlocks''))
     (fst (nodeToBlock innerHTML (Element ''LOOP'' [] [Element ''DIV'' [] []]) r))
   = Some (JStr ''html'', JStr (innerHTML (Element ''LOOP'' [] [Element ''DIV'' [] []])), JArr [])"
  by (simp add: tag_tables blockAttributes_def block_attr_def fst_createBlock
      case_prod_beta Let_def)

text \<open>
  C4. Claimed: every tag written in self-closing form whose name has a self-closing
  policy is rewritten to the explicit empty-element form before parsing, and other tags
  are left as they are. The tag \<^verbatim>\<open><set a="b" />\<close> is rewritten and \<^verbatim>\<open><br/>\<close> is
  kept; the tag \<^verbatim>\<open><set a="x>y" />\<close>, whose attribute value holds the character
  \<^verbatim>\<open>>\<close>, is not rewritten, because the second group of the regular expression
  cannot pass that character. A \<^verbatim>\<open>set\<close> element of the DOM becomes a block of
  content type \<^verbatim>\<open>empty\<close>, self-closing and without inner blocks whatever its child
  nodes are, so what the parser nests in a tag that was not rewritten is lost.
\<close>

theorem set_tag_with_gt_in_value_not_rewritten:
  \<open>replace_selfclosing ''<set a="b" />'' = ''<set a="b" ></set>''
   \<and> replace_selfclosing ''<br/>'' = ''<br/>''
   \<and> replace_selfclosing ''<set a="x>y" />'' = ''<set a="x>y" />''
   \<and> map_option (\<lambda>b. (block_attr b ''contentType'', block_attr b ''selfClosing'',
                      js_prop b ''innerBlocks''))
        (fst (nodeToBlock innerHTML (Element ''SET'' attrs kids) r))
      = Some (JStr ''empty'', JBool True, JArr [])\<close>
  by (simp add: match_selfclosing_def is_word_char_def tag_tables blockAttributes_def
      block_attr_def fst_createBlock case_prod_beta Let_def)

text \<open>
  C10. An entry of the block sequence that is \<^verbatim>\<open>null\<close>, \<^verbatim>\<open>undefined\<close> or whose
  \<^verbatim>\<open>name\<close> is not the string \<^verbatim>\<open>universal/element\<close> is rendered as the empty
  string by both serializers, without an exception; in a sequence, the other entries are
  rendered as they are without it, and the entry contributes the empty string at its
  place.
\<close>

theorem foreign_entries_render_empty:
  assumes "e = JNull \<or> e = JUndefined \<or> js_prop e ''name'' \<noteq> JStr ''universal/element''"
  shows "blockToHTML e pretty indent = Inr []
    \<and> blockToWPMarkup gt0 e indent = Inr []
    \<and> parseBlocksToHTML (JArr (xs @ e # ys)) pretty indent =
           (case sequenceE (map (\<lambda>b. blockToHTML b pretty indent) (xs @ ys)) of
              Inl err \<Rightarrow> Inl err
            | Inr hs \<Rightarrow> Inr (join (if pretty then [CHR 0x0A] else [])
                             (take (length xs) hs @ [] # drop (length xs) hs)))
    \<and> parseBlocksToWPMarkup gt0 (JArr (xs @ e # ys)) indent =
           (case sequenceE (map (\<lambda>b. blockToWPMarkup gt0 b indent) (xs @ ys)) of
              Inl err \<Rightarrow> Inl err
            | Inr ms \<Rightarrow> Inr (join [CHR 0x0A] (take (length xs) ms @ [] # drop (length xs) ms)))"
proof -
  have h: "blockToHTML e pretty indent = Inr []"
    using assms by (rule blockToHTML_non_element)
  have w: "blockToWPMarkup gt0 e indent = Inr []"
    using assms by (rule blockToWPMarkup_non_element)
  have hs: "parseBlocksToHTML (JArr (xs @ e # ys)) pretty indent =
           (case sequenceE (map (\<lambda>b. blockToHTML b pretty indent) (xs @ ys)) of
              Inl err \<Rightarrow> Inl err
            | Inr hs \<Rightarrow> Inr (join (if pretty then [CHR 0x0A] else [])
                             (take (length xs) hs @ [] # drop (length xs) hs)))"
    unfolding parseBlocksToHTML.simps [of "JArr (xs @ e # ys)"]
    using sequenceE_insert [of "\<lambda>b. blockToHTML b pretty indent" xs "[]" ys]
    by (simp add: h split: sum.splits)
  have ws: "parseBlocksToWPMarkup gt0 (JArr (xs @ e # ys)) indent =
           (case sequenceE (map (\<lambda>b. blockToWPMarkup gt0 b indent) (xs @ ys)) of
              Inl err \<Rightarrow> Inl err
            | Inr ms \<Rightarrow> Inr (join [CHR 0x0A] (take (length xs) ms @ [] # drop (length xs) ms)))"
    unfolding parseBlocksToWPMarkup.simps [of gt0 "JArr (xs @ e # ys)"]
    using sequenceE_insert [of "\<lambda>b. blockToWPMarkup gt0 b indent" xs "[]" ys]
    by (simp add: w split: sum.splits)
  from h w hs ws show ?thesis by blast
qed

lemma br_block_html:
  "blockToHTML (JObj [(''name'', JStr ''universal/element''),
      (''attributes'', JObj [(''tagName'', JStr ''br''), (''contentType'', JStr ''empty'')])])
     True 0 = Inr ''<br />''"
  by code_simp

lemma br_block_markup:
  \<open>blockToWPMarkup (\<lambda>s. False) (JObj [(''name'', JStr ''universal/element''),
      (''attributes'', JObj [(''tagName'', JStr ''br''), (''contentType'', JStr ''empty'')])]) 0
   = Inr ''<!-- wp:universal/element {"tagName":"br","contentType":"empty","isDynamic":false,"elementType":"text"} /-->''\<close>
  by code_simp

theorem foreign_entries_render_empty_witness:
  \<open>js_prop (JObj [(''name'', JStr ''core/paragraph'')]) ''name'' \<noteq> JStr ''universal/element''
   \<and> blockToHTML (JObj [(''name'', JStr ''core/paragraph'')]) True 0 = Inr []
   \<and> blockToWPMarkup (\<lambda>s. False) (JObj [(''name'', JStr ''core/paragraph'')]) 0 = Inr []
   \<and> parseBlocksToHTML (JArr [JObj [(''name'', JStr ''core/paragraph'')],
        JObj [(''name'', JStr ''universal/element''),
          (''attributes'', JObj [(''tagName'', JStr ''br''), (''contentType'', JStr ''empty'')])]])
        True 0 = Inr [CHR 0x0A, CHR ''<'', CHR ''b'', CHR ''r'', CHR '' '', CHR ''/'', CHR ''>'']
   \<and> parseBlocksToWPMarkup (\<lambda>s. False) (JArr [JObj [(''name'', JStr ''core/paragraph'')],
        JObj [(''name'', JStr ''universal/element''),
          (''attributes'', JObj [(''tagName'', JStr ''br''), (''contentType'', JStr ''empty'')])]]) 0
      = Inr (CHR 0x0A # ''<!-- wp:universal/element {"tagName":"br","contentType":"empty","isDynamic":false,"elementType":"text"} /-->'')\<close>
  using foreign_entries_render_empty [of "JObj [(''name'', JStr ''core/paragraph'')]" True 0
      "\<lambda>s. False" "[]"
      "[JObj [(''name'', JStr ''universal/element''),
          (''attributes'', JObj [(''tagName'', JStr ''br''), (''contentType'', JStr ''empty'')])]]"]
  by (simp add: br_block_html br_block_markup join_def)

text \<open>
  Counterexample to C5 as claimed: the attribute map of this block has the entry
  \<^verbatim>\<open>disabled\<close> with the empty value (what the forward transcoder stores for
  \<^verbatim>\<open><button disabled>\<close>), and the markup has no attribute.
\<close>

theorem empty_valued_attribute_not_emitted:
  "blockToHTML (JObj [(''name'', JStr ''universal/element''),
      (''attributes'', JObj [(''tagName'', JStr ''button''), (''contentType'', JStr ''text''),
         (''content'', JStr ''Go''), (''selfClosing'', JBool False),
         (''globalAttrs'', JObj [(''disabled'', JStr [])])]),
      (''innerBlocks'', JArr [])]) False 0 = Inr ''<button>Go</button>''"
  by code_simp

text \<open>
  C5. Claimed: the reverse transcoder emits the class first, then every entry of the
  attribute map. It emits the class when \<^verbatim>\<open>className\<close> is truthy, then, in mapping
  order, the entries whose name is not empty and whose value is neither
  \<^verbatim>\<open>undefined\<close> nor the empty string, each with its name filtered to
  \<^verbatim>\<open>[A-Za-z0-9_-]\<close> and its value escaped; an entry with an empty value is left
  out. The markup of an element block starts with the tag and this attribute string.
\<close>

theorem attribute_emission:
  assumes "js_truthy block" and "js_prop block ''name'' = JStr ''universal/element''"
    and "js_default (block_attr block ''globalAttrs'') (JObj []) = JObj entries"
    and "blockToHTML block pretty indent = Inr html"
  shows "\<exists>t rest. js_default (block_attr block ''tagName'') (JStr ''div'') = JStr t
    \<and> html = (if pretty then repeat ''  '' indent else []) @ ''<'' @ t
        @ (if js_truthy (block_attr block ''className'')
           then '' class='' @ [CHR 0x22]
                  @ concat (map entity (js_text (block_attr block ''className''))) @ [CHR 0x22]
           else [])
        @ concat (map emit_attr (filter emitted entries)) @ rest
    \<and> (rest = '' />'' \<or> (\<exists>inner. rest = ''>'' @ inner @ ''</'' @ t @ ''>''))"
proof -
  let ?cn = "js_default (block_attr block ''className'') (JStr [])"
  let ?A = "(if js_truthy (block_attr block ''className'')
           then '' class='' @ [CHR 0x22]
                  @ concat (map entity (js_text (block_attr block ''className''))) @ [CHR 0x22]
           else [])
        @ concat (map emit_attr (filter emitted entries))"
  have attrs: "js_prop block ''attributes'' \<noteq> JUndefined" "js_prop block ''attributes'' \<noteq> JNull"
    using blockToHTML_Inr_attributes [OF assms(1,2,4)] by simp_all
  note unfold = blockToHTML_element [OF assms(1,2) attrs, of pretty indent]
  from assms(4) obtain attrString where
    as: "attributesString ?cn (js_default (block_attr block ''globalAttrs'') (JObj [])) = Inr attrString"
    unfolding unfold
    by (cases "attributesString ?cn (js_default (block_attr block ''globalAttrs'') (JObj []))")
      simp_all
  have cn: "(if js_truthy ?cn then '' class='' @ [CHR 0x22] @ concat (map entity (js_text ?cn)) @ [CHR 0x22]
             else [])
          = (if js_truthy (block_attr block ''className'')
           then '' class='' @ [CHR 0x22]
                  @ concat (map entity (js_text (block_attr block ''className''))) @ [CHR 0x22]
           else [])"
    by (simp add: js_default_def)
  have A: "attrString = ?A"
    using attributesString_Inr [OF as [unfolded assms(3)]] unfolding cn .
  from assms(4) obtain inner where
    "emitElement (js_default (block_attr block ''tagName'') (JStr ''div''))
            (js_default (block_attr block ''selfClosing'') (JBool False))
            attrString inner pretty indent = Inr html"
    unfolding unfold as
    by (cases "innerContent block pretty indent") simp_all
  from emitElement_Inr [OF this] obtain t where
    t: "js_default (block_attr block ''tagName'') (JStr ''div'') = JStr t"
    and alt: "html = (if pretty then repeat ''  '' indent else []) @ ''<'' @ t @ attrString @ '' />''
        \<or> (\<exists>s. html = (if pretty then repeat ''  '' indent else []) @ ''<'' @ t @ attrString @ ''>''
                   @ s @ ''</'' @ t @ ''>'')"
    by blast
  from alt show ?thesis
  proof
    assume "html = (if pretty then repeat ''  '' indent else []) @ ''<'' @ t @ attrString @ '' />''"
    with t A show ?thesis
      by (intro exI [of _ t] exI [of _ "'' />''"]) simp
  next
    assume "\<exists>s. html = (if pretty then repeat ''  '' indent else []) @ ''<'' @ t @ attrString @ ''>''
                   @ s @ ''</'' @ t @ ''>''"
    then obtain s where "html = (if pretty then repeat ''  '' indent else []) @ ''<'' @ t @ attrString @ ''>''
                   @ s @ ''</'' @ t @ ''>''" ..
    with t A show ?thesis
      by (intro exI [of _ t] exI [of _ "''>'' @ s @ ''</'' @ t @ ''>''"]) simp
  qed
qed

lemma link_block_html:
  \<open>blockToHTML (JObj [(''name'', JStr ''universal/element''),
      (''attributes'', JObj [(''tagName'', JStr ''a''), (''contentType'', JStr ''text''),
         (''content'', JStr ''Go''), (''className'', JStr ''x&y''),
         (''globalAttrs'', JObj [(''hr ef'', JStr ''/p?a=1&b=2''), (''hidden'', JStr [])])])])
     False 0 = Inr ''<a class="x&amp;y" href="/p?a=1&amp;b=2">Go</a>''\<close>
  by code_simp

theorem attribute_emission_witness:
  \<open>js_truthy (JObj [(''name'', JStr ''universal/element''),
      (''attributes'', JObj [(''tagName'', JStr ''a''), (''contentType'', JStr ''text''),
         (''content'', JStr ''Go''), (''className'', JStr ''x&y''),
         (''globalAttrs'', JObj [(''hr ef'', JStr ''/p?a=1&b=2''), (''hidden'', JStr [])])])])
   \<and> blockToHTML (JObj [(''name'', JStr ''universal/element''),
      (''attributes'', JObj [(''tagName'', JStr ''a''), (''contentType'', JStr ''text''),
         (''content'', JStr ''Go''), (''className'', JStr ''x&y''),
         (''globalAttrs'', JObj [(''hr ef'', JStr ''/p?a=1&b=2''), (''hidden'', JStr [])])])])
     False 0 = Inr ''<a class="x&amp;y" href="/p?a=1&amp;b=2">Go</a>''
   \<and> (\<exists>rest. ''<a class="x&amp;y" href="/p?a=1&amp;b=2">Go</a>''
          = ''<a'' @ '' class="x&amp;y"''
             @ concat (map emit_attr
                 (filter emitted [(''hr ef'', JStr ''/p?a=1&b=2''), (''hidden'', JStr [])]))
             @ rest)\<close>
proof -
  let ?b = "JObj [(''name'', JStr ''universal/element''),
      (''attributes'', JObj [(''tagName'', JStr ''a''), (''contentType'', JStr ''text''),
         (''content'', JStr ''Go''), (''className'', JStr ''x&y''),
         (''globalAttrs'', JObj [(''hr ef'', JStr ''/p?a=1&b=2''), (''hidden'', JStr [])])])]"
  have h1: "js_truthy ?b" by simp
  have h2: "js_prop ?b ''name'' = JStr ''universal/element''" by simp
  have h3: "js_default (block_attr ?b ''globalAttrs'') (JObj [])
      = JObj [(''hr ef'', JStr ''/p?a=1&b=2''), (''hidden'', JStr [])]"
    by (simp add: block_attr_def js_default_def)
  from attribute_emission [OF h1 h2 h3 link_block_html] obtain t rest where
    "js_default (block_attr ?b ''tagName'') (JStr ''div'') = JStr t"
    and "''<a class='' @ [CHR 0x22] @ ''x&amp;y'' @ [CHR 0x22] @ '' href='' @ [CHR 0x22]
          @ ''/p?a=1&amp;b=2'' @ [CHR 0x22] @ ''>Go</a>''
      = (if False then repeat ''  '' 0 else []) @ ''<'' @ t
        @ (if js_truthy (block_attr ?b ''className'')
           then '' class='' @ [CHR 0x22]
                  @ concat (map entity (js_text (block_attr ?b ''className''))) @ [CHR 0x22]
           else [])
        @ concat (map emit_attr
            (filter emitted [(''hr ef'', JStr ''/p?a=1&b=2''), (''hidden'', JStr [])])) @ rest"
    by auto
  then have "\<exists>rest. ''<a class='' @ [CHR 0x22] @ ''x&amp;y'' @ [CHR 0x22] @ '' href='' @ [CHR 0x22]
          @ ''/p?a=1&amp;b=2'' @ [CHR 0x22] @ ''>Go</a>''
          = ''<a'' @ '' class='' @ [CHR 0x22] @ ''x&amp;y'' @ [CHR 0x22]
             @ concat (map emit_attr
                 (filter emitted [(''hr ef'', JStr ''/p?a=1&b=2''), (''hidden'', JStr [])]))
             @ rest"
    by (intro exI [of _ rest]) (simp add: block_attr_def js_default_def entity_def)
  with h1 link_block_html show ?thesis by simp
qed

text \<open>
  Counterexample to C6 as claimed: a single block object where the array of blocks is
  required gives the empty string, not an exception.
\<close>

theorem non_array_block_sequence_does_not_raise:
  "parseBlocksToHTML (JObj [(''name'', JStr ''universal/element''),
      (''attributes'', JObj [(''tagName'', JStr ''br''), (''contentType'', JStr ''empty'')])])
     False 0 = Inr []"
  by (rule parseBlocksToHTML_non_array) simp

text \<open>
  C6. Claimed: the core raises when given a value that is not an array where a block
  sequence is required. Both serializers return the empty string for such a value, and
  \<^verbatim>\<open>parseHTMLToBlocks\<close> returns no block for an argument that is not a non-empty
  string (it has no operation that throws, for any markup). A sequence raises exactly
  when one of its blocks does, and a block raises for these causes only. Both
  serializers: an element block rendered at a negative indentation (the reverse
  transcoder in the indented mode only), or one of whose inner blocks raises, or whose
  inner blocks are an object with a \<^verbatim>\<open>length\<close> that has no conversion to a number.
  The reverse transcoder: an element block whose \<^verbatim>\<open>attributes\<close> is
  \<^verbatim>\<open>undefined\<close> or \<^verbatim>\<open>null\<close>, whose \<^verbatim>\<open>globalAttrs\<close> is \<^verbatim>\<open>null\<close>, whose
  \<^verbatim>\<open>tagName\<close> is present and not a string, or whose class, emitted attribute value
  or content (of a \<^verbatim>\<open>text\<close> or \<^verbatim>\<open>html\<close> block written in the paired form) has
  no conversion to a string. The markup serializer: an element block without inner
  blocks whose \<^verbatim>\<open>attributes\<close> is \<^verbatim>\<open>undefined\<close> or \<^verbatim>\<open>null\<close>.
\<close>

theorem raises_only_for_malformed_blocks:
  "((\<forall>bs. blocks \<noteq> JArr bs) \<longrightarrow>
       parseBlocksToHTML blocks pretty indent = Inr []
       \<and> parseBlocksToWPMarkup gt0 blocks indent = Inr [])
   \<and> ((\<forall>s. html \<noteq> JStr s) \<or> html = JStr [] \<longrightarrow>
       parseHTMLToBlocks parse innerHTML html r = ([], r))
   \<and> (isl (parseBlocksToHTML (JArr bs') pretty indent) \<longleftrightarrow>
        (\<exists>b\<in>set bs'. isl (blockToHTML b pretty indent)))
   \<and> (isl (blockToHTML block pretty indent) \<longleftrightarrow>
        js_truthy block \<and> js_prop block ''name'' = JStr ''universal/element''
        \<and> (js_prop block ''attributes'' = JUndefined
            \<or> js_prop block ''attributes'' = JNull
            \<or> (js_truthy (block_attr block ''className'')
                \<and> unprintable (block_attr block ''className''))
            \<or> block_attr block ''globalAttrs'' = JNull
            \<or> (\<exists>entry\<in>set (js_spread (block_attr block ''globalAttrs'')).
                  emitted entry \<and> unprintable (snd entry))
            \<or> (block_attr block ''contentType'' = JStr ''blocks''
                \<and> ((\<exists>bs. js_prop block ''innerBlocks'' = JArr bs
                       \<and> (\<exists>b\<in>set bs. isl (blockToHTML b pretty (indent + 1))))
                    \<or> (\<exists>kvs. js_prop block ''innerBlocks'' = JObj kvs
                         \<and> unprintable (js_prop (js_prop block ''innerBlocks'') ''length''))))
            \<or> (block_attr block ''tagName'' \<noteq> JUndefined
                \<and> (\<forall>t. block_attr block ''tagName'' \<noteq> JStr t))
            \<or> (pretty \<and> indent < 0)
            \<or> ((block_attr block ''contentType'' = JUndefined
                  \<or> block_attr block ''contentType'' = JStr ''text''
                  \<or> block_attr block ''contentType'' = JStr ''html'')
                \<and> js_truthy (block_attr block ''content'')
                \<and> unprintable (block_attr block ''content'')
                \<and> \<not> closes_itself block)))
   \<and> (isl (parseBlocksToWPMarkup gt0 (JArr bs') indent) \<longleftrightarrow>
        (\<exists>b\<in>set bs'. isl (blockToWPMarkup gt0 b indent)))
   \<and> (isl (blockToWPMarkup gt0 wblock indent) \<longleftrightarrow>
        js_truthy wblock \<and> js_prop wblock ''name'' = JStr ''universal/element''
        \<and> (indent < 0
            \<or> ((js_prop wblock ''attributes'' = JUndefined
                  \<or> js_prop wblock ''attributes'' = JNull)
                \<and> (\<not> js_truthy (js_prop wblock ''innerBlocks'')
                    \<or> length_is_0 (js_prop wblock ''innerBlocks'')))
            \<or> (\<exists>kvs. js_prop wblock ''innerBlocks'' = JObj kvs
                 \<and> unprintable (js_prop (js_prop wblock ''innerBlocks'') ''length''))
            \<or> (\<exists>bs. js_prop wblock ''innerBlocks'' = JArr bs
                 \<and> (\<exists>b\<in>set bs. isl (blockToWPMarkup gt0 b (indent + 1))))))"
proof (intro conjI impI)
  assume "\<forall>bs. blocks \<noteq> JArr bs"
  then show "parseBlocksToHTML blocks pretty indent = Inr []"
    and "parseBlocksToWPMarkup gt0 blocks indent = Inr []"
    by (rule parseBlocksToHTML_non_array, rule parseBlocksToWPMarkup_non_array)
next
  assume "(\<forall>s. html \<noteq> JStr s) \<or> html = JStr []"
  then show "parseHTMLToBlocks parse innerHTML html r = ([], r)"
    by (cases html) (auto simp: parseHTMLToBlocks_def)
qed (rule parseBlocksToHTML_isl blockToHTML_isl parseBlocksToWPMarkup_isl blockToWPMarkup_isl)+

theorem raises_only_for_malformed_blocks_witness:
  "(\<forall>bs. JStr ''<br>'' \<noteq> JArr bs)
   \<and> parseBlocksToHTML (JStr ''<br>'') True 0 = Inr []
   \<and> parseBlocksToWPMarkup (\<lambda>s. False) (JStr ''<br>'') 0 = Inr []
   \<and> (\<forall>s. JNull \<noteq> JStr s)
   \<and> parseHTMLToBlocks (\<lambda>s. None) (\<lambda>n. []) JNull (\<lambda>i. 0) = ([], \<lambda>i. 0)
   \<and> isl (blockToHTML (JObj [(''name'', JStr ''universal/element''),
        (''attributes'', JObj [(''className'', JObj [(''toString'', JNum 1)])])]) True 0)
   \<and> isl (parseBlocksToHTML (JArr [JObj [(''name'', JStr ''universal/element''),
        (''attributes'', JObj [(''className'', JObj [(''toString'', JNum 1)])])]]) True 0)
   \<and> isl (blockToWPMarkup (\<lambda>s. False) (JObj [(''name'', JStr ''universal/element'')]) 0)
   \<and> \<not> isl (parseBlocksToWPMarkup (\<lambda>s. False) (JArr [JObj [(''name'', JStr ''universal/element''),
        (''attributes'', JObj [(''className'', JObj [(''toString'', JNum 1)])])]]) 0)"
  using raises_only_for_malformed_blocks [of "JStr ''<br>''" True 0 "\<lambda>s. False" JNull
      "\<lambda>s. None" "\<lambda>n. []" "\<lambda>i. 0"
      "[JObj [(''name'', JStr ''universal/element''),
        (''attributes'', JObj [(''className'', JObj [(''toString'', JNum 1)])])]]"
      "JObj [(''name'', JStr ''universal/element''),
        (''attributes'', JObj [(''className'', JObj [(''toString'', JNum 1)])])]"
      "JObj [(''name'', JStr ''universal/element'')]"]
    raises_only_for_malformed_blocks [of "JStr ''<br>''" True 0 "\<lambda>s. False" JNull
      "\<lambda>s. None" "\<lambda>n. []" "\<lambda>i. 0"
      "[JObj [(''name'', JStr ''universal/element''),
        (''attributes'', JObj [(''className'', JObj [(''toString'', JNum 1)])])]]"
      "JObj [(''name'', JStr ''universal/element''),
        (''attributes'', JObj [(''className'', JObj [(''toString'', JNum 1)])])]"
      "JObj [(''name'', JStr ''universal/element''),
        (''attributes'', JObj [(''className'', JObj [(''toString'', JNum 1)])])]"]
  by (simp add: block_attr_def length_is_0_def)

text \<open>
  C8. An element block whose inner blocks are the array \<open>bs\<close>, or are absent with
  \<open>bs\<close> empty, is serialized at an indentation that is not negative as follows (its
  attributes present when it has no inner blocks). It is the single comment
  \<^verbatim>\<open><!-- wp:universal/element {json} /-->\<close> exactly when it has no inner blocks and
  its content type is \<^verbatim>\<open>empty\<close>, or \<^verbatim>\<open>text\<close> or \<^verbatim>\<open>html\<close> with an empty
  (falsy) content. Otherwise it is the opening comment and the closing comment: with
  nothing between them when there are no inner blocks; else with the markup of each
  inner block, serialized in turn one level deeper, on lines of their own between them
  (and an exception of an inner block is that of the block).
\<close>

theorem markup_self_closing_iff:
  assumes "js_prop block ''name'' = JStr ''universal/element''"
    and "js_prop block ''innerBlocks'' = JArr bs
         \<or> (bs = [] \<and> (js_prop block ''innerBlocks'' = JUndefined
                        \<or> js_prop block ''innerBlocks'' = JNull))"
    and "bs \<noteq> [] \<or> (js_prop block ''attributes'' \<noteq> JUndefined
                      \<and> js_prop block ''attributes'' \<noteq> JNull)"
    and "0 \<le> indent"
  shows "blockToWPMarkup gt0 block indent =
    (if bs = [] \<and> (block_attr block ''contentType'' = JStr ''empty''
          \<or> ((block_attr block ''contentType'' = JStr ''text''
                \<or> block_attr block ''contentType'' = JStr ''html'')
              \<and> \<not> js_truthy (block_attr block ''content'')))
     then Inr (repeat ''    '' indent @ ''<!-- wp:universal/element ''
                 @ JSON_stringify (JObj (blockAttrs (js_prop block ''attributes''))) @ '' /-->'')
     else if bs = []
     then Inr (repeat ''    '' indent @ ''<!-- wp:universal/element ''
                 @ JSON_stringify (JObj (blockAttrs (js_prop block ''attributes''))) @ '' -->''
                 @ ''<!-- /wp:universal/element -->'')
     else (case sequenceE (map (\<lambda>b. blockToWPMarkup gt0 b (indent + 1)) bs) of
             Inl e \<Rightarrow> Inl e
           | Inr ms \<Rightarrow>
               Inr (repeat ''    '' indent @ ''<!-- wp:universal/element ''
                      @ JSON_stringify (JObj (blockAttrs (js_prop block ''attributes''))) @ '' -->''
                      @ [CHR 0x0A] @ join [CHR 0x0A] ms @ [CHR 0x0A]
                      @ repeat ''    '' indent @ ''<!-- /wp:universal/element -->'')))"
proof (cases "bs = []")
  case True
  with assms(3) have attrs: "js_prop block ''attributes'' \<noteq> JUndefined"
    "js_prop block ''attributes'' \<noteq> JNull"
    by simp_all
  from True assms(2) have ib: "\<not> js_truthy (js_prop block ''innerBlocks'')
      \<or> length_is_0 (js_prop block ''innerBlocks'')"
    by (auto simp: length_is_0_def)
  from True assms(2) have gt: "(if js_truthy (js_prop block ''innerBlocks'')
       then length_gt_0 gt0 (js_prop block ''innerBlocks'') else Inr False) = Inr False"
    by (auto simp: length_gt_0_def)
  show ?thesis
    unfolding blockToWPMarkup_element [OF assms(1,4)] gt
    using True attrs ib
    by (auto simp: isSelfClosing_def block_attr_def simp del: JSON_stringify.simps)
next
  case False
  with assms(2) have ib: "js_prop block ''innerBlocks'' = JArr bs"
    by simp
  from False have sc: "isSelfClosing (js_prop block ''attributes'') (JArr bs) = Inr False"
    by (simp add: isSelfClosing_def length_is_0_def)
  from False have gt: "length_gt_0 gt0 (JArr bs) = Inr True"
    by (simp add: length_gt_0_def)
  show ?thesis
    unfolding blockToWPMarkup_element [OF assms(1,4)] ib sc
    using False
    by (simp add: gt parseBlocksToWPMarkup_JArr del: JSON_stringify.simps split: sum.splits)
qed

lemma list_block_markup:
  \<open>blockToWPMarkup (\<lambda>s. False) (JObj [(''name'', JStr ''universal/element''),
       (''attributes'', JObj [(''tagName'', JStr ''ul''), (''contentType'', JStr ''blocks'')]),
       (''innerBlocks'', JArr [
          JObj [(''name'', JStr ''universal/element''),
            (''attributes'', JObj [(''tagName'', JStr ''li''), (''contentType'', JStr ''text''),
               (''content'', JStr ''a'')]),
            (''innerBlocks'', JArr [])],
          JObj [(''name'', JStr ''universal/element''),
            (''attributes'', JObj [(''tagName'', JStr ''li''), (''contentType'', JStr ''text''),
               (''content'', JStr [])])]])]) 0
   = Inr (''<!-- wp:universal/element {"tagName":"ul","contentType":"blocks","isDynamic":false,"elementType":"text"} -->''
       @ [CHR 0x0A] @ ''    <!-- wp:universal/element {"tagName":"li","contentType":"text","content":"a","isDynamic":false,"elementType":"text"} --><!-- /wp:universal/element -->''
       @ [CHR 0x0A] @ ''    <!-- wp:universal/element {"tagName":"li","contentType":"text","content":"","isDynamic":false,"elementType":"text"} /-->''
       @ [CHR 0x0A] @ ''<!-- /wp:universal/element -->'')\<close>
  by code_simp

lemma item_blocks_markup:
  \<open>map (\<lambda>b. blockToWPMarkup (\<lambda>s. False) b 1)
     [JObj [(''name'', JStr ''universal/element''),
            (''attributes'', JObj [(''tagName'', JStr ''li''), (''contentType'', JStr ''text''),
               (''content'', JStr ''a'')]),
            (''innerBlocks'', JArr [])],
      JObj [(''name'', JStr ''universal/element''),
            (''attributes'', JObj [(''tagName'', JStr ''li''), (''contentType'', JStr ''text''),
               (''content'', JStr [])])]]
   = [Inr ''    <!-- wp:universal/element {"tagName":"li","contentType":"text","content":"a","isDynamic":false,"elementType":"text"} --><!-- /wp:universal/element -->'',
      Inr ''    <!-- wp:universal/element {"tagName":"li","contentType":"text","content":"","isDynamic":false,"elementType":"text"} /-->'']\<close>
  by code_simp

lemma list_attrs_json:
  \<open>JSON_stringify (JObj (blockAttrs (JObj [(''tagName'', JStr ''ul''), (''contentType'', JStr ''blocks'')])))
   = ''{"tagName":"ul","contentType":"blocks","isDynamic":false,"elementType":"text"}''\<close>
  by code_simp

theorem markup_self_closing_iff_witness:
  \<open>js_prop (JObj [(''name'', JStr ''universal/element''),
       (''attributes'', JObj [(''tagName'', JStr ''ul''), (''contentType'', JStr ''blocks'')]),
       (''innerBlocks'', JArr [
          JObj [(''name'', JStr ''universal/element''),
            (''attributes'', JObj [(''tagName'', JStr ''li''), (''contentType'', JStr ''text''),
               (''content'', JStr ''a'')]),
            (''innerBlocks'', JArr [])],
          JObj [(''name'', JStr ''universal/element''),
            (''attributes'', JObj [(''tagName'', JStr ''li''), (''contentType'', JStr ''text''),
               (''content'', JStr [])])]])]) ''name'' = JStr ''universal/element''
   \<and> (0::int) \<le> 0
   \<and> blockToWPMarkup (\<lambda>s. False) (JObj [(''name'', JStr ''universal/element''),
       (''attributes'', JObj [(''tagName'', JStr ''ul''), (''contentType'', JStr ''blocks'')]),
       (''innerBlocks'', JArr [
          JObj [(''name'', JStr ''universal/element''),
            (''attributes'', JObj [(''tagName'', JStr ''li''), (''contentType'', JStr ''text''),
               (''content'', JStr ''a'')]),
            (''innerBlocks'', JArr [])],
          JObj [(''name'', JStr ''universal/element''),
            (''attributes'', JObj [(''tagName'', JStr ''li''), (''contentType'', JStr ''text''),
               (''content'', JStr [])])]])]) 0
     = Inr (''<!-- wp:universal/element {"tagName":"ul","contentType":"blocks","isDynamic":false,"elementType":"text"} -->''
       @ [CHR 0x0A] @ ''    <!-- wp:universal/element {"tagName":"li","contentType":"text","content":"a","isDynamic":false,"elementType":"text"} --><!-- /wp:universal/element -->''
       @ [CHR 0x0A] @ ''    <!-- wp:universal/element {"tagName":"li","contentType":"text","content":"","isDynamic":false,"elementType":"text"} /-->''
       @ [CHR 0x0A] @ ''<!-- /wp:universal/element -->'')\<close>
  using markup_self_closing_iff [of "JObj [(''name'', JStr ''universal/element''),
       (''attributes'', JObj [(''tagName'', JStr ''ul''), (''contentType'', JStr ''blocks'')]),
       (''innerBlocks'', JArr [
          JObj [(''name'', JStr ''universal/element''),
            (''attributes'', JObj [(''tagName'', JStr ''li''), (''contentType'', JStr ''text''),
               (''content'', JStr ''a'')]),
            (''innerBlocks'', JArr [])],
          JObj [(''name'', JStr ''universal/element''),
            (''attributes'', JObj [(''tagName'', JStr ''li''), (''contentType'', JStr ''text''),
               (''content'', JStr [])])]])]"
       "[JObj [(''name'', JStr ''universal/element''),
            (''attributes'', JObj [(''tagName'', JStr ''li''), (''contentType'', JStr ''text''),
               (''content'', JStr ''a'')]),
            (''innerBlocks'', JArr [])],
          JObj [(''name'', JStr ''universal/element''),
            (''attributes'', JObj [(''tagName'', JStr ''li''), (''contentType'', JStr ''text''),
               (''content'', JStr [])])]]"
       0 "\<lambda>s. False"]
  by (simp add: item_blocks_markup [simplified] list_attrs_json block_attr_def repeat_def join_def
      del: JSON_stringify.simps)

text \<open>
  C3. An element whose tag has no policy entry is classified by its structure: a void
  element is \<^verbatim>\<open>empty\<close>; \<^verbatim>\<open>svg\<close> is \<^verbatim>\<open>html\<close> with its inner markup; with
  element children, a container tag is \<^verbatim>\<open>blocks\<close>, and any other tag is
  \<^verbatim>\<open>html\<close> with its inner markup; without element children, a text child that is
  not white space makes it \<^verbatim>\<open>text\<close> with the whole text content, untrimmed;
  otherwise it is \<^verbatim>\<open>empty\<close>. The content is stored for \<^verbatim>\<open>text\<close> and
  \<^verbatim>\<open>html\<close> only. The inner blocks of a \<^verbatim>\<open>blocks\<close> element are, in document
  order, the blocks that the transcoder itself gives for each child node, the child nodes
  without a block left out (they are the same up to the identifiers, which are drawn
  anew); every other element has none.
\<close>

theorem structural_classification:
  assumes "getTagConfig (toLowerCase tn) = None"
  shows "\<exists>b bs. fst (nodeToBlock innerHTML (Element tn attrs kids) r) = Some b
    \<and> js_prop b ''innerBlocks'' = JArr bs
    \<and> (block_attr b ''contentType'', block_attr b ''content'', map erase_ids bs) =
       (if toLowerCase tn \<in> set [''img'', ''br'', ''hr'', ''input'', ''meta'', ''link'', ''area'',
             ''base'', ''col'', ''embed'', ''source'', ''track'', ''wbr'']
        then (JStr ''empty'', JUndefined, [])
        else if toLowerCase tn = ''svg''
        then (JStr ''html'', JStr (innerHTML (Element tn attrs kids)), [])
        else if (\<exists>k\<in>set kids. isElement k)
          \<and> toLowerCase tn \<in> set [''div'', ''section'', ''article'', ''header'', ''footer'', ''main'',
                ''nav'', ''aside'', ''ul'', ''ol'', ''li'', ''form'', ''fieldset'', ''blockquote'',
                ''figure'', ''button'']
        then (JStr ''blocks'', JUndefined,
              List.map_filter (\<lambda>k. map_option erase_ids (fst (nodeToBlock innerHTML k r'))) kids)
        else if (\<exists>k\<in>set kids. isElement k)
        then (JStr ''html'', JStr (innerHTML (Element tn attrs kids)), [])
        else if (\<exists>d. TextNode d \<in> set kids \<and> trim d \<noteq> [])
        then (JStr ''text'', JStr (textContent (Element tn attrs kids)), [])
        else (JStr ''empty'', JUndefined, []))"
proof -
  note fields = element_block_fields [OF assms, of innerHTML attrs kids r]
  then obtain b where b: "fst (nodeToBlock innerHTML (Element tn attrs kids) r) = Some b"
    by (cases "fst (nodeToBlock innerHTML (Element tn attrs kids) r)") simp_all
  note mf = nodesToBlocks_map_filter [of innerHTML kids r r']
  from fields [unfolded b] mf show ?thesis
    unfolding b
    by (auto split: if_splits simp del: nodeToBlock.simps set_simps simp: map_filter_simps)
qed

lemma division_children:
  "List.map_filter (\<lambda>k. map_option erase_ids (fst (nodeToBlock (\<lambda>n. []) k (\<lambda>i. 0))))
          [Element ''BR'' [] [], TextNode [CHR 0xA0, CHR '' ''], OtherNode, Element ''P'' [(''id'', ''x'')] [TextNode ''hi'']]
   = [JObj
   [(''clientId'', JStr []), (''name'', JStr ''universal/element''),
    (''isValid'', JBool True),
    (''attributes'',
     JObj
      [(''blockName'', JStr ''Br''), (''tagName'', JStr ''br''),
       (''category'', JStr ''custom''), (''contentType'', JStr ''empty''),
       (''selfClosing'', JBool True), (''globalAttrs'', JObj []),
       (''uiState'',
        JObj
         [(''tagCategory'', JStr ''custom''),
          (''selectedTagName'', JStr ''br''),
          (''selectedContentType'', JStr ''empty'')])]),
    (''innerBlocks'', JArr [])],
  JObj
   [(''clientId'', JStr []), (''name'', JStr ''universal/element''),
    (''isValid'', JBool True),
    (''attributes'',
     JObj
      [(''blockName'', JStr ''P''), (''tagName'', JStr ''p''),
       (''category'', JStr ''custom''), (''contentType'', JStr ''text''),
       (''selfClosing'', JBool False),
       (''globalAttrs'', JObj [(''id'', JStr ''x'')]),
       (''uiState'',
        JObj
         [(''tagCategory'', JStr ''custom''),
          (''selectedTagName'', JStr ''p''),
          (''selectedContentType'', JStr ''text'')]),
       (''content'', JStr ''hi'')]),
    (''innerBlocks'', JArr [])]]"
  by code_simp

theorem structural_classification_witness:
  "getTagConfig (toLowerCase ''DIV'') = None
   \<and> (\<exists>b bs. fst (nodeToBlock (\<lambda>n. [])
          (Element ''DIV'' [] [Element ''BR'' [] [], TextNode [CHR 0xA0, CHR '' ''], OtherNode,
             Element ''P'' [(''id'', ''x'')] [TextNode ''hi'']]) (\<lambda>i. 1)) = Some b
       \<and> js_prop b ''innerBlocks'' = JArr bs
       \<and> block_attr b ''contentType'' = JStr ''blocks''
       \<and> block_attr b ''content'' = JUndefined
       \<and> map erase_ids bs = [JObj
   [(''clientId'', JStr []), (''name'', JStr ''universal/element''),
    (''isValid'', JBool True),
    (''attributes'',
     JObj
      [(''blockName'', JStr ''Br''), (''tagName'', JStr ''br''),
       (''category'', JStr ''custom''), (''contentType'', JStr ''empty''),
       (''selfClosing'', JBool True), (''globalAttrs'', JObj []),
       (''uiState'',
        JObj
         [(''tagCategory'', JStr ''custom''),
          (''selectedTagName'', JStr ''br''),
          (''selectedContentType'', JStr ''empty'')])]),
    (''innerBlocks'', JArr [])],
  JObj
   [(''clientId'', JStr []), (''name'', JStr ''universal/element''),
    (''isValid'', JBool True),
    (''attributes'',
     JObj
      [(''blockName'', JStr ''P''), (''tagName'', JStr ''p''),
       (''category'', JStr ''custom''), (''contentType'', JStr ''text''),
       (''selfClosing'', JBool False),
       (''globalAttrs'', JObj [(''id'', JStr ''x'')]),
       (''uiState'',
        JObj
         [(''tagCategory'', JStr ''custom''),
          (''selectedTagName'', JStr ''p''),
          (''selectedContentType'', JStr ''text'')]),
       (''content'', JStr ''hi'')]),
    (''innerBlocks'', JArr [])]])"
proof -
  have h: "getTagConfig (toLowerCase ''DIV'') = None"
    by (simp add: tag_tables)
  have t: "toLowerCase ''DIV'' = ''div''"
    by (simp add: tag_tables)
  from structural_classification [OF h, of "\<lambda>n. []" "[]"
      "[Element ''BR'' [] [], TextNode [CHR 0xA0, CHR '' ''], OtherNode, Element ''P'' [(''id'', ''x'')] [TextNode ''hi'']]"
      "\<lambda>i. 1" "\<lambda>i. 0"]
  show ?thesis
    unfolding division_children t
    using h [unfolded t] by (simp del: nodeToBlock.simps erase_ids.simps)
qed

text \<open>
  C9. Every Block Node of every tree that the forward transcoder produces satisfies the
  payload invariant: a non-empty content only when the content type is \<^verbatim>\<open>text\<close> or
  \<^verbatim>\<open>html\<close>, inner blocks only when it is \<^verbatim>\<open>blocks\<close>, and never both.
\<close>

theorem forward_payload_exclusive:
  "\<forall>b\<in>set (fst (parseHTMLToBlocks parse innerHTML html r)). payload_exclusive b"
proof (cases html)
  case (JStr s)
  show ?thesis
  proof (cases "s = [] \<or> parse (''<div>'' @ replace_selfclosing s @ ''</div>'') = None")
    case True
    with JStr show ?thesis by (auto simp: parseHTMLToBlocks_def)
  next
    case False
    then obtain ns where "parse (''<div>'' @ replace_selfclosing s @ ''</div>'') = Some ns" by auto
    with False JStr have "fst (parseHTMLToBlocks parse innerHTML html r) = fst (nodesToBlocks innerHTML ns r)"
      by (simp add: parseHTMLToBlocks_def)
    moreover have "\<forall>b\<in>set (fst (nodesToBlocks innerHTML ns r)). payload_exclusive b"
      by (rule nodesToBlocks_all) (rule nodeToBlock_payload_exclusive)
    ultimately show ?thesis by simp
  qed
qed (simp_all add: parseHTMLToBlocks_def)

lemma list_blocks:
  "fst (parseHTMLToBlocks (\<lambda>s. Some [Element ''UL'' [] [Element ''LI'' [] [TextNode ''x'']]])
           (\<lambda>n. []) (JStr ''<ul><li>x</li></ul>'') (\<lambda>i. 0))
   = [JObj [(''clientId'', JStr ''00000000-0000-4000-8000-000000000000''),
        (''name'', JStr ''universal/element''), (''isValid'', JBool True),
        (''attributes'',
         JObj [(''blockName'', JStr ''Ul''), (''tagName'', JStr ''ul''),
           (''category'', JStr ''custom''), (''contentType'', JStr ''blocks''),
           (''selfClosing'', JBool False), (''globalAttrs'', JObj []),
           (''uiState'', JObj [(''tagCategory'', JStr ''custom''),
              (''selectedTagName'', JStr ''ul''), (''selectedContentType'', JStr ''blocks'')])]),
        (''innerBlocks'',
         JArr [JObj [(''clientId'', JStr ''00000000-0000-4000-8000-000000000000''),
           (''name'', JStr ''universal/element''), (''isValid'', JBool True),
           (''attributes'',
            JObj [(''blockName'', JStr ''Li''), (''tagName'', JStr ''li''),
              (''category'', JStr ''custom''), (''contentType'', JStr ''text''),
              (''selfClosing'', JBool False), (''globalAttrs'', JObj []),
              (''uiState'', JObj [(''tagCategory'', JStr ''custom''),
                 (''selectedTagName'', JStr ''li''), (''selectedContentType'', JStr ''text'')]),
              (''content'', JStr ''x'')]),
           (''innerBlocks'', JArr [])]])]]"
  by code_simp

theorem forward_payload_exclusive_witness:
  "payload_exclusive
     (JObj [(''clientId'', JStr ''00000000-0000-4000-8000-000000000000''),
        (''name'', JStr ''universal/element''), (''isValid'', JBool True),
        (''attributes'',
         JObj [(''blockName'', JStr ''Ul''), (''tagName'', JStr ''ul''),
           (''category'', JStr ''custom''), (''contentType'', JStr ''blocks''),
           (''selfClosing'', JBool False), (''globalAttrs'', JObj []),
           (''uiState'', JObj [(''tagCategory'', JStr ''custom''),
              (''selectedTagName'', JStr ''ul''), (''selectedContentType'', JStr ''blocks'')])]),
        (''innerBlocks'',
         JArr [JObj [(''clientId'', JStr ''00000000-0000-4000-8000-000000000000''),
           (''name'', JStr ''universal/element''), (''isValid'', JBool True),
           (''attributes'',
            JObj [(''blockName'', JStr ''Li''), (''tagName'', JStr ''li''),
              (''category'', JStr ''custom''), (''contentType'', JStr ''text''),
              (''selfClosing'', JBool False), (''globalAttrs'', JObj []),
              (''uiState'', JObj [(''tagCategory'', JStr ''custom''),
                 (''selectedTagName'', JStr ''li''), (''selectedContentType'', JStr ''text'')]),
              (''content'', JStr ''x'')]),
           (''innerBlocks'', JArr [])]])])"
  using forward_payload_exclusive [of "\<lambda>s. Some [Element ''UL'' [] [Element ''LI'' [] [TextNode ''x'']]]"
      "\<lambda>n. []" "JStr ''<ul><li>x</li></ul>''" "\<lambda>i. 0"]
  unfolding list_blocks by simp

text \<open>
  Counterexample to C7 as claimed: two runs on the same markup, with different values
  drawn from \<^verbatim>\<open>Math.random\<close>, give different Block Node trees.
\<close>

theorem client_ids_differ_between_runs:
  "fst (parseHTMLToBlocks (\<lambda>s. Some [Element ''BR'' [] []]) (\<lambda>n. []) (JStr ''<br>'') (\<lambda>i. 0))
   \<noteq> fst (parseHTMLToBlocks (\<lambda>s. Some [Element ''BR'' [] []]) (\<lambda>n. []) (JStr ''<br>'') (\<lambda>i. 1))"
  by code_simp

text \<open>
  C7. Claimed: two runs of either direction on equal inputs give equal outputs, equal
  Block Node trees included. The reverse directions are functions of their arguments.
  The forward direction draws the \<^verbatim>\<open>clientId\<close> of each block from
  \<^verbatim>\<open>Math.random\<close>: two runs on equal inputs give trees that are equal in everything
  but the \<^verbatim>\<open>clientId\<close> fields.
\<close>

theorem forward_deterministic_up_to_ids:
  "map erase_ids (fst (parseHTMLToBlocks parse innerHTML html r1))
   = map erase_ids (fst (parseHTMLToBlocks parse innerHTML html r2))"
proof (cases html)
  case (JStr s)
  show ?thesis
  proof (cases "s = [] \<or> parse (''<div>'' @ replace_selfclosing s @ ''</div>'') = None")
    case True
    with JStr show ?thesis by (auto simp: parseHTMLToBlocks_def)
  next
    case False
    then obtain ns where "parse (''<div>'' @ replace_selfclosing s @ ''</div>'') = Some ns" by auto
    with False JStr have "fst (parseHTMLToBlocks parse innerHTML html r) = fst (nodesToBlocks innerHTML ns r)" for r
      by (simp add: parseHTMLToBlocks_def)
    moreover have "map erase_ids (fst (nodesToBlocks innerHTML ns r1)) = map erase_ids (fst (nodesToBlocks innerHTML ns r2))"
      by (rule nodesToBlocks_erase) (rule nodeToBlock_erase)
    ultimately show ?thesis by simp
  qed
qed (simp_all add: parseHTMLToBlocks_def)









end
